theory Spec2Isabelle
  imports Main "HOL-Library.AList"
begin

section \<open>Python values and library functions used by the upload view\<close>

text \<open>
  A Python \<open>str\<close> is a \<open>string\<close>: one \<open>char\<close> per code point, code points 0 to 255.
  Exceptions are values; every function of the view that can raise returns a sum whose
  left summand is the exception.
\<close>

datatype exn =
    WrongExcelFileException
  | UserNotAllowException string
  | OSError string
  | ValueError string
  | IndexError string
  | JSONDecodeError string
  | OverflowError string
  | Exception string
  | BaseException string

text \<open>
  \<open>Exception e\<close> stands for every other subclass of Python's \<open>Exception\<close> (a database
  error, a \<open>TypeError\<close>), \<open>BaseException e\<close> for what \<open>except Exception\<close> does not catch
  (\<open>KeyboardInterrupt\<close>, \<open>SystemExit\<close>).
\<close>

fun is_Exception :: "exn \<Rightarrow> bool" where
  "is_Exception (BaseException _) = False"
| "is_Exception _ = True"

fun str_exn :: "exn \<Rightarrow> string" where
  "str_exn WrongExcelFileException = []"
| "str_exn (UserNotAllowException m) = m"
| "str_exn (OSError m) = m"
| "str_exn (ValueError m) = m"
| "str_exn (IndexError m) = m"
| "str_exn (JSONDecodeError m) = m"
| "str_exn (OverflowError m) = m"
| "str_exn (Exception m) = m"
| "str_exn (BaseException m) = m"

subsection \<open>Decimal text of an integer: \<open>str(n)\<close>, \<open>f'{n}'\<close>\<close>

definition digit_char :: "nat \<Rightarrow> char" where
  "digit_char d = char_of (48 + d)"

function str_nat :: "nat \<Rightarrow> string" where
  "str_nat n = (if n < 10 then [digit_char n] else str_nat (n div 10) @ [digit_char (n mod 10)])"
  by pat_completeness auto
termination
  by (relation "measure id") auto

declare str_nat.simps [simp del]

definition str_int :: "int \<Rightarrow> string" where
  "str_int i = (if i < 0 then CHR ''-'' # str_nat (nat (- i)) else str_nat (nat i))"

subsection \<open>Indexing, slicing and \<open>str.split\<close>\<close>

text \<open>\<open>xs[i]\<close> for \<open>i \<ge> 0\<close>: IndexError out of range.\<close>

definition py_index :: "'a list \<Rightarrow> nat \<Rightarrow> exn + 'a" where
  "py_index xs i = (if i < length xs then Inr (xs ! i) else Inl (IndexError ''list index out of range''))"

text \<open>\<open>row[1:-1]\<close>: the text between the first and the last character, empty when
  \<open>row\<close> has fewer than two characters.\<close>

definition slice_1_m1 :: "string \<Rightarrow> string" where
  "slice_1_m1 row = take (length row - 2) (drop 1 row)"

text \<open>\<open>s.split(c)\<close> for a separator of one character: the maximal pieces of \<open>s\<close> between
  occurrences of \<open>c\<close>; never an empty list.\<close>

fun split_acc :: "char \<Rightarrow> string \<Rightarrow> string \<Rightarrow> string list" where
  "split_acc c acc [] = [rev acc]"
| "split_acc c acc (x # xs) =
     (if x = c then rev acc # split_acc c [] xs else split_acc c (x # acc) xs)"

definition split_on :: "char \<Rightarrow> string \<Rightarrow> string list" where
  "split_on c s = split_acc c [] s"

subsection \<open>\<open>int(s)\<close> in base 10\<close>

text \<open>
  \<open>int\<close> strips white space at both ends, reads an optional sign and then decimal
  digits, where single underscores may stand between two digits. Anything else is a
  ValueError.
\<close>

definition is_space :: "char \<Rightarrow> bool" where
  "is_space c = ((of_char c :: nat) \<in> {9, 10, 11, 12, 13, 28, 29, 30, 31, 32, 133, 160})"

definition is_digit :: "char \<Rightarrow> bool" where
  "is_digit c = (48 \<le> (of_char c :: nat) \<and> (of_char c :: nat) \<le> 57)"

definition digit_val :: "char \<Rightarrow> nat" where
  "digit_val c = of_char c - 48"

definition strip :: "string \<Rightarrow> string" where
  "strip s = rev (dropWhile is_space (rev (dropWhile is_space s)))"

fun int_digits :: "nat \<Rightarrow> string \<Rightarrow> nat option" where
  "int_digits acc [] = Some acc"
| "int_digits acc [c] = (if is_digit c then Some (acc * 10 + digit_val c) else None)"
| "int_digits acc (c # d # cs) =
     (if is_digit c then int_digits (acc * 10 + digit_val c) (d # cs)
      else if c = CHR ''_'' \<and> is_digit d then int_digits (acc * 10 + digit_val d) cs
      else None)"

definition int_unsigned :: "string \<Rightarrow> nat option" where
  "int_unsigned s =
     (case s of [] \<Rightarrow> None
      | c # cs \<Rightarrow> if is_digit c then int_digits (digit_val c) cs else None)"

definition py_int :: "string \<Rightarrow> exn + int" where
  "py_int s =
     (let t = strip s;
          r = (case t of [] \<Rightarrow> None
               | c # cs \<Rightarrow>
                   if c = CHR ''-'' then map_option (\<lambda>n. - int n) (int_unsigned cs)
                   else if c = CHR ''+'' then map_option int (int_unsigned cs)
                   else map_option int (int_unsigned t))
      in case r of
           None \<Rightarrow> Inl (ValueError (''invalid literal for int() with base 10: '' @ s))
         | Some i \<Rightarrow> Inr i)"

subsection \<open>\<open>json.dumps\<close> of a list of strings\<close>

text \<open>
  With the default \<open>ensure_ascii=True\<close> a string is written between double quotes; the
  quote, the backslash and every character outside the printable ASCII range are
  escaped, the rest is copied. List items are separated by a comma and a space.
\<close>

definition hex_char :: "nat \<Rightarrow> char" where
  "hex_char d = (if d < 10 then char_of (48 + d) else char_of (87 + d))"

definition encode_char :: "char \<Rightarrow> string" where
  "encode_char c =
     (if c = CHR 0x22 then [CHR 0x5C, CHR 0x22]
      else if c = CHR 0x5C then [CHR 0x5C, CHR 0x5C]
      else if c = CHR 0x0A then [CHR 0x5C, CHR ''n'']
      else if c = CHR 0x0D then [CHR 0x5C, CHR ''r'']
      else if c = CHR 0x09 then [CHR 0x5C, CHR ''t'']
      else if c = CHR 0x08 then [CHR 0x5C, CHR ''b'']
      else if c = CHR 0x0C then [CHR 0x5C, CHR ''f'']
      else if 32 \<le> (of_char c :: nat) \<and> (of_char c :: nat) \<le> 126 then [c]
      else [CHR 0x5C, CHR ''u'', CHR ''0'', CHR ''0'',
            hex_char ((of_char c :: nat) div 16), hex_char ((of_char c :: nat) mod 16)])"

definition encode_basestring_ascii :: "string \<Rightarrow> string" where
  "encode_basestring_ascii s = CHR 0x22 # concat (map encode_char s) @ [CHR 0x22]"

fun join_items :: "string list \<Rightarrow> string" where
  "join_items [] = []"
| "join_items [x] = x"
| "join_items (x # y # ys) = x @ '', '' @ join_items (y # ys)"

definition json_dumps :: "string list \<Rightarrow> string" where
  "json_dumps xs = CHR ''['' # join_items (map encode_basestring_ascii xs) @ [CHR '']'']"

subsection \<open>\<open>json.loads\<close>\<close>

text \<open>
  The decoder, for the documents the view gives it: one object whose members are
  arrays of strings. A document of another shape (a number, a nested object, a literal)
  is reported as a JSONDecodeError here, which \<open>json.loads\<close> would decode, and so is an
  escape of a code point above 00FF, which has no \<open>char\<close>; the view never produces either
  (\<open>json_loads_file_content\<close> below). \<open>scanstring\<close> starts after the opening quote and
  returns the decoded string with the text after the closing quote.
\<close>

definition hex_val :: "char \<Rightarrow> nat option" where
  "hex_val c =
     (let n = (of_char c :: nat) in
      if 48 \<le> n \<and> n \<le> 57 then Some (n - 48)
      else if 97 \<le> n \<and> n \<le> 102 then Some (n - 87)
      else if 65 \<le> n \<and> n \<le> 70 then Some (n - 55)
      else None)"

definition hex4 :: "char \<Rightarrow> char \<Rightarrow> char \<Rightarrow> char \<Rightarrow> nat option" where
  "hex4 a b c d =
     (case (hex_val a, hex_val b, hex_val c, hex_val d) of
        (Some w, Some x, Some y, Some z) \<Rightarrow> Some (((w * 16 + x) * 16 + y) * 16 + z)
      | _ \<Rightarrow> None)"

definition unescape :: "char \<Rightarrow> char option" where
  "unescape e =
     (if e = CHR 0x22 then Some (CHR 0x22)
      else if e = CHR 0x5C then Some (CHR 0x5C)
      else if e = CHR ''/'' then Some (CHR ''/'')
      else if e = CHR ''b'' then Some (CHR 0x08)
      else if e = CHR ''f'' then Some (CHR 0x0C)
      else if e = CHR ''n'' then Some (CHR 0x0A)
      else if e = CHR ''r'' then Some (CHR 0x0D)
      else if e = CHR ''t'' then Some (CHR 0x09)
      else None)"

definition prepend :: "char \<Rightarrow> (string \<times> string) option \<Rightarrow> (string \<times> string) option" where
  "prepend c r = map_option (\<lambda>(v, rest). (c # v, rest)) r"

fun scanstring :: "string \<Rightarrow> (string \<times> string) option" where
  "scanstring [] = None"
| "scanstring (c # cs) =
     (if c = CHR 0x22 then Some ([], cs)
      else if c = CHR 0x5C then
        (case cs of
           [] \<Rightarrow> None
         | e # es \<Rightarrow>
             if e = CHR ''u'' then
               (case es of
                  h1 # h2 # h3 # h4 # rest \<Rightarrow>
                    (case hex4 h1 h2 h3 h4 of
                       None \<Rightarrow> None
                     | Some n \<Rightarrow> if n < 256 then prepend (char_of n) (scanstring rest) else None)
                | _ \<Rightarrow> None)
             else (case unescape e of
                     None \<Rightarrow> None
                   | Some ch \<Rightarrow> prepend ch (scanstring es)))
      else if (of_char c :: nat) < 32 then None
      else prepend c (scanstring cs))"

definition is_json_ws :: "char \<Rightarrow> bool" where
  "is_json_ws c = (c = CHR '' '' \<or> c = CHR 0x09 \<or> c = CHR 0x0A \<or> c = CHR 0x0D)"

definition skip_ws :: "string \<Rightarrow> string" where
  "skip_ws s = dropWhile is_json_ws s"

lemma scanstring_shorter: "scanstring s = Some (v, r) \<Longrightarrow> length r < length s"
proof (induction s arbitrary: v r rule: scanstring.induct)
  case 1
  then show ?case by simp
next
  case (2 c cs)
  then show ?case
    by (fastforce simp: prepend_def split: if_splits list.splits option.splits)
qed

lemma skip_ws_length: "length (skip_ws s) \<le> length s"
  by (simp add: skip_ws_def length_dropWhile_le)

text \<open>The items of an array, from its first item on (after \<open>[\<close> and white space).\<close>

function parse_items :: "string \<Rightarrow> (string list \<times> string) option" where
  "parse_items s =
     (case s of
        [] \<Rightarrow> None
      | c # cs \<Rightarrow>
          if c \<noteq> CHR 0x22 then None
          else (case scanstring cs of
                  None \<Rightarrow> None
                | Some (v, r) \<Rightarrow>
                    (case skip_ws r of
                       [] \<Rightarrow> None
                     | d # r' \<Rightarrow>
                         if d = CHR '']'' then Some ([v], r')
                         else if d = CHR '','' then
                           (case parse_items (skip_ws r') of
                              None \<Rightarrow> None
                            | Some (vs, r'') \<Rightarrow> Some (v # vs, r''))
                         else None)))"
  by pat_completeness auto
termination
proof (relation "measure length", goal_cases)
  case 1
  then show ?case by simp
next
  case (2 s c cs x v r d r')
  have "length r < length cs" using 2 scanstring_shorter by auto
  moreover have "length (skip_ws r') \<le> length r'" by (rule skip_ws_length)
  moreover have "length (skip_ws r) \<le> length r" by (rule skip_ws_length)
  ultimately show ?case using 2 by auto
qed

declare parse_items.simps [simp del]

definition parse_array :: "string \<Rightarrow> (string list \<times> string) option" where
  "parse_array s =
     (case s of
        [] \<Rightarrow> None
      | c # cs \<Rightarrow>
          if c \<noteq> CHR ''['' then None
          else (case skip_ws cs of
                  [] \<Rightarrow> None
                | d # r \<Rightarrow> if d = CHR '']'' then Some ([], r) else parse_items (d # r)))"

lemma parse_items_shorter: "parse_items s = Some (vs, r) \<Longrightarrow> length r < length s"
proof (induction s arbitrary: vs r rule: parse_items.induct)
  case (1 s)
  from "1.prems" obtain c cs v r0 d r' where
    s: "s = c # cs" and cq: "c = CHR 0x22"
    and sc: "scanstring cs = Some (v, r0)" and sk: "skip_ws r0 = d # r'"
    by (subst (asm) parse_items.simps) (auto split: list.splits if_splits option.splits)
  have l0: "length r0 < length cs" using sc by (rule scanstring_shorter)
  have l1: "length r' < length r0" using skip_ws_length [of r0] sk by simp
  show ?case
  proof (cases "d = CHR '']''")
    case True
    with "1.prems" s sc sk have "r = r'"
      by (subst (asm) parse_items.simps) (simp split: if_splits)
    with l0 l1 s show ?thesis by simp
  next
    case False
    with "1.prems" s sc sk obtain vs' where
      d: "d = CHR '',''" and rec: "parse_items (skip_ws r') = Some (vs', r)"
      by (subst (asm) parse_items.simps) (auto split: if_splits option.splits)
    have "length r < length (skip_ws r')"
      using "1.IH" [of c cs "(v, r0)" v r0 d r' vs' r] s cq sc sk False d rec by simp
    with skip_ws_length [of r'] l0 l1 s show ?thesis by simp
  qed
qed

lemma parse_array_shorter: "parse_array s = Some (vs, r) \<Longrightarrow> length r < length s"
proof -
  assume a: "parse_array s = Some (vs, r)"
  then obtain c cs d r0 where s: "s = c # cs" and sk: "skip_ws cs = d # r0"
    by (auto simp: parse_array_def split: list.splits if_splits)
  have l: "length (d # r0) \<le> length cs" using skip_ws_length [of cs] sk by simp
  show ?thesis
  proof (cases "d = CHR '']''")
    case True
    with a s sk have "r = r0" by (simp add: parse_array_def split: if_splits)
    with l s show ?thesis by simp
  next
    case False
    with a s sk have "parse_items (d # r0) = Some (vs, r)"
      by (simp add: parse_array_def split: if_splits)
    from parse_items_shorter [OF this] l s show ?thesis by simp
  qed
qed

text \<open>The members of an object, from its first key on (after \<open>{\<close> and white space).\<close>

function parse_members :: "string \<Rightarrow> ((string \<times> string list) list \<times> string) option" where
  "parse_members s =
     (case s of
        [] \<Rightarrow> None
      | c # cs \<Rightarrow>
          if c \<noteq> CHR 0x22 then None
          else (case scanstring cs of
                  None \<Rightarrow> None
                | Some (k, r) \<Rightarrow>
                    (case skip_ws r of
                       [] \<Rightarrow> None
                     | d # r1 \<Rightarrow>
                         if d \<noteq> CHR '':'' then None
                         else (case parse_array (skip_ws r1) of
                                 None \<Rightarrow> None
                               | Some (v, r2) \<Rightarrow>
                                   (case skip_ws r2 of
                                      [] \<Rightarrow> None
                                    | e # r3 \<Rightarrow>
                                        if e = CHR ''}'' then Some ([(k, v)], r3)
                                        else if e = CHR '','' then
                                          (case parse_members (skip_ws r3) of
                                             None \<Rightarrow> None
                                           | Some (kvs, r4) \<Rightarrow> Some ((k, v) # kvs, r4))
                                        else None)))))"
  by pat_completeness auto
termination
proof (relation "measure length", goal_cases)
  case 1
  then show ?case by simp
next
  case (2 s c cs x k r d r1 y v r2 e r3)
  have "length r < length cs" using 2 scanstring_shorter by auto
  moreover have "length (skip_ws r) \<le> length r" by (rule skip_ws_length)
  moreover have "length (skip_ws r1) \<le> length r1" by (rule skip_ws_length)
  moreover have "length r2 < length (skip_ws r1)" using 2 parse_array_shorter by auto
  moreover have "length (skip_ws r2) \<le> length r2" by (rule skip_ws_length)
  moreover have "length (skip_ws r3) \<le> length r3" by (rule skip_ws_length)
  ultimately show ?case using 2 by auto
qed

declare parse_members.simps [simp del]

definition parse_object :: "string \<Rightarrow> ((string \<times> string list) list \<times> string) option" where
  "parse_object s =
     (case s of
        [] \<Rightarrow> None
      | c # cs \<Rightarrow>
          if c \<noteq> CHR ''{'' then None
          else (case skip_ws cs of
                  [] \<Rightarrow> None
                | d # r \<Rightarrow> if d = CHR ''}'' then Some ([], r) else parse_members (d # r)))"

text \<open>A Python \<open>dict\<close> keeps its keys in the order of their first insertion; a key given
  again replaces the value in place.\<close>

definition dict_of_pairs :: "('k \<times> 'v) list \<Rightarrow> ('k \<times> 'v) list" where
  "dict_of_pairs kvs = fold (\<lambda>(k, v) d. AList.update k v d) kvs []"

definition dict_values :: "('k \<times> 'v) list \<Rightarrow> 'v list" where
  "dict_values d = map snd d"

definition json_loads :: "string \<Rightarrow> exn + (string \<times> string list) list" where
  "json_loads s =
     (case parse_object (skip_ws s) of
        None \<Rightarrow> Inl (JSONDecodeError ''Expecting value'')
      | Some (kvs, r) \<Rightarrow>
          if skip_ws r = [] then Inr (dict_of_pairs kvs)
          else Inl (JSONDecodeError ''Extra data''))"

section \<open>The persistent store, the request and the collaborators\<close>

text \<open>
  \<open>Project\<close> and \<open>Upload\<close> are the two tables of \<open>src.models\<close>: a table is the list of
  its rows. A project has its primary key and its order number; timestamps are
  microseconds since the epoch, in UTC.
\<close>

record project =
  pk :: nat
  order_number :: int

record upload =
  creator :: string
  file_name :: string
  file_content :: string
  read_successful :: bool
  timestamp :: int

datatype level = Warning | Error | Info

record form =
  c11_file_disabled :: bool
  bw_file_disabled :: bool

text \<open>
  The state the view reads and writes: the two tables, the messages shown to the user
  (\<open>django.contrib.messages\<close>), the log, and the form object that is an attribute of the
  class \<open>UploadView\<close> and so is shared by all requests.
\<close>

record world =
  projects :: "project list"
  uploads :: "upload list"
  messages :: "(level \<times> string) list"
  logger :: "(level \<times> string) list"
  view_form :: form

record user =
  username :: string
  is_staff :: bool
  is_superuser :: bool

record uploaded_file =
  name :: string
  bytes :: string

record request =
  user_of :: user
  utc_now :: int
  form_is_valid :: bool
  c11_file :: uploaded_file
  bw_file :: uploaded_file

text \<open>
  The code of the repository that the view calls and that is not part of it is a
  parameter: the setting \<open>UPLOAD_ALLOWED_AFTER_DAYS\<close>, \<open>is_user_in_groups\<close>, the two
  parsers of \<open>Uploader\<close> (they raise or return the records and the row errors), the
  \<open>__str__\<close> of the two record classes, \<open>Architect.build_objects\<close> (it may write projects
  to the store, and raise), and which calls of \<open>Project.delete\<close> and \<open>Upload.save\<close> raise.
\<close>

record ('c, 'b, 'ce, 'be, 'st) env =
  UPLOAD_ALLOWED_AFTER_DAYS :: int
  is_user_in_groups :: "user \<Rightarrow> string list \<Rightarrow> bool"
  parse_c11_file :: "uploaded_file \<Rightarrow> exn + 'c list \<times> 'ce list"
  parse_bw_file :: "uploaded_file \<Rightarrow> exn + 'b list \<times> 'be list"
  c11_str :: "'c \<Rightarrow> string"
  bw_str :: "'b \<Rightarrow> string"
  build_objects :: "'c list \<Rightarrow> 'b list \<Rightarrow> project list \<Rightarrow> (exn + 'st) \<times> project list"
  delete_raises :: "project \<Rightarrow> exn option"
  save_raises :: "exn option"
  repr_projects :: "project list \<Rightarrow> string"

datatype ('ce, 'be, 'st) response =
    Render_upload form
  | Render_upload_list form "upload list"
  | Render_upload_errors form "'be list" "'ce list"
  | Render_upload_statistics "'st option" "'be list" "'ce list"

definition add_message :: "level \<Rightarrow> string \<Rightarrow> world \<Rightarrow> world" where
  "add_message l m w = w\<lparr>messages := messages w @ [(l, m)]\<rparr>"

definition add_log :: "level \<Rightarrow> string \<Rightarrow> world \<Rightarrow> world" where
  "add_log l m w = w\<lparr>logger := logger w @ [(l, m)]\<rparr>"

section \<open>The cadence gate\<close>

definition day_us :: int where
  "day_us = 86400000000"

text \<open>\<open>datetime.now(timezone.utc).replace(hour=0, minute=0, second=0, microsecond=0)\<close>\<close>

definition today_at_midnight :: "int \<Rightarrow> int" where
  "today_at_midnight t = t - t mod day_us"

text \<open>The attribute \<open>days\<close> of a \<open>timedelta\<close> of \<open>d\<close> microseconds: rounded towards
  minus infinity.\<close>

definition timedelta_days :: "int \<Rightarrow> int" where
  "timedelta_days d = d div day_us"

text \<open>\<open>Upload.objects.all().order_by('-timestamp')\<close>\<close>

definition order_by_timestamp_desc :: "upload list \<Rightarrow> upload list" where
  "order_by_timestamp_desc us = sort_key (\<lambda>u. - timestamp u) us"

text \<open>
  A \<open>datetime\<close> lies between \<open>datetime.min\<close> (the first microsecond of the year 1) and
  \<open>datetime.max\<close> (the last microsecond of the year 9999); the timestamps of the stored
  rows and the time of a request are datetimes. \<open>timedelta(days=n)\<close> raises OverflowError
  for more than 999999999 days, and adding a \<open>timedelta\<close> to a \<open>datetime\<close> raises
  OverflowError when the result is not a datetime.
\<close>

definition datetime_min :: int where
  "datetime_min = - 62135596800000000"

definition datetime_max :: int where
  "datetime_max = 253402300799999999"

definition timedelta_of_days :: "int \<Rightarrow> exn + int" where
  "timedelta_of_days n =
     (if \<bar>n\<bar> > 999999999 then
        Inl (OverflowError (''days='' @ str_int n @ ''; must have magnitude <= 999999999''))
      else Inr (n * day_us))"

definition datetime_add :: "int \<Rightarrow> int \<Rightarrow> exn + int" where
  "datetime_add t d =
     (if t + d < datetime_min \<or> datetime_max < t + d then
        Inl (OverflowError ''date value out of range'')
      else Inr (t + d))"

text \<open>Lines 32 and 33: the days from today's midnight to the end of the cool-down.\<close>

definition days_remaining :: "int \<Rightarrow> int \<Rightarrow> int \<Rightarrow> exn + int" where
  "days_remaining last_upload_timestamp cooldown_days t =
     (case timedelta_of_days cooldown_days of
        Inl e \<Rightarrow> Inl e
      | Inr cooldown \<Rightarrow>
          (case datetime_add last_upload_timestamp cooldown of
             Inl e \<Rightarrow> Inl e
           | Inr cooldown_end \<Rightarrow> Inr (timedelta_days (cooldown_end - today_at_midnight t))))"

definition days_to_next_upload ::
  "('c, 'b, 'ce, 'be, 'st) env \<Rightarrow> request \<Rightarrow> world \<Rightarrow> exn + int" where
  "days_to_next_upload env req w =
     (if is_staff (user_of req) then Inr 0
      else (case order_by_timestamp_desc (uploads w) of
              [] \<Rightarrow> Inr 0
            | last_upload # _ \<Rightarrow>
                days_remaining (timestamp last_upload) (UPLOAD_ALLOWED_AFTER_DAYS env)
                  (utc_now req)))"

definition check_upload_allow ::
  "('c, 'b, 'ce, 'be, 'st) env \<Rightarrow> request \<Rightarrow> world \<Rightarrow> exn + bool \<times> world" where
  "check_upload_allow env req w =
     (case days_to_next_upload env req w of
        Inl e \<Rightarrow> Inl e
      | Inr days_to_upload \<Rightarrow>
          if days_to_upload > 0 then
            Inr (False,
                 add_message Warning
                   (''A file upload is not possible at this time. Next upload will be possible after ''
                      @ str_int days_to_upload @ '' day/s'') w)
          else Inr (True, w))"

text \<open>The gate returns \<open>True\<close>.\<close>

definition upload_allowed :: "('c, 'b, 'ce, 'be, 'st) env \<Rightarrow> request \<Rightarrow> world \<Rightarrow> bool" where
  "upload_allowed env req w =
     (case check_upload_allow env req w of
        Inl _ \<Rightarrow> False
      | Inr (allowed, _) \<Rightarrow> allowed)"

section \<open>GET\<close>

definition permitted_groups :: "string list" where
  "permitted_groups = [''C-Level'', ''Sales'']"

definition set_disabled :: "bool \<Rightarrow> form \<Rightarrow> form" where
  "set_disabled b f = f\<lparr>c11_file_disabled := b, bw_file_disabled := b\<rparr>"

text \<open>The body of the \<open>try\<close> of \<open>get\<close>: the exception it raises, if any, and the state.\<close>

definition get_try ::
  "('c, 'b, 'ce, 'be, 'st) env \<Rightarrow> request \<Rightarrow> world \<Rightarrow> exn option \<times> world" where
  "get_try env req w =
     (if is_superuser (user_of req) then
        (None, w\<lparr>view_form := set_disabled False (view_form w)\<rparr>)
      else
        (case check_upload_allow env req w of
           Inl e \<Rightarrow> (Some e, w)
         | Inr (allowed, w1) \<Rightarrow>
             (let w2 = (if \<not> allowed then w1\<lparr>view_form := set_disabled True (view_form w1)\<rparr>
                        else w1)
              in if \<not> is_user_in_groups env (user_of req) permitted_groups then
                   (Some (UserNotAllowException ''User not allowed to perform this action''), w2)
                 else (None, w2))))"

definition get ::
  "('c, 'b, 'ce, 'be, 'st) env \<Rightarrow> request \<Rightarrow> world
     \<Rightarrow> (exn + ('ce, 'be, 'st) response) \<times> world" where
  "get env req w =
     (case get_try env req w of
        (None, w1) \<Rightarrow>
          (Inr (Render_upload_list (view_form w1) (order_by_timestamp_desc (uploads w1))), w1)
      | (Some (UserNotAllowException msg), w1) \<Rightarrow>
          (let w2 = add_log Error
                      (''User '' @ username (user_of req) @ '' is not allowed to see upload content'') w1;
               w3 = add_message Warning msg w2
           in (Inr (Render_upload (view_form w3)), w3))
      | (Some e, w1) \<Rightarrow>
          if is_Exception e then
            (let w2 = add_log Error
                        (''Upload view error: '' @ str_exn e @ ''. User: '' @ username (user_of req)) w1;
                 w3 = add_message Error
                        (''There was an error while fetching upload content: '' @ str_exn e) w2
             in (Inr (Render_upload_list (view_form w3) (order_by_timestamp_desc (uploads w3))), w3))
          else (Inl e, w1))"

section \<open>POST\<close>

text \<open>The local variables of \<open>post\<close> that the \<open>try\<close> statement assigns.\<close>

record ('ce, 'be, 'st) locals =
  statistics :: "'st option"
  c11_data_error :: "'ce list"
  bw_data_error :: "'be list"
  upload_successful :: bool
  file_content_var :: string

definition initial_locals :: "('ce, 'be, 'st) locals" where
  "initial_locals =
     \<lparr>statistics = None, c11_data_error = [], bw_data_error = [],
      upload_successful = False, file_content_var = []\<rparr>"

text \<open>Lines 98 to 100: the key \<open>c11_data\<close> is given the BW records, \<open>bw_data\<close> the C11
  records.\<close>

definition make_file_content :: "string list \<Rightarrow> string list \<Rightarrow> string" where
  "make_file_content bw_strs c11_strs =
     ''{'' @ [CHR 0x22] @ ''c11_data'' @ [CHR 0x22] @ '': '' @ json_dumps bw_strs @ '', ''
       @ [CHR 0x22] @ ''bw_data'' @ [CHR 0x22] @ '': '' @ json_dumps c11_strs @ ''}''"

text \<open>Lines 111 and 112: the order number of one row of the decoded content.\<close>

definition order_number_of_row :: "string \<Rightarrow> exn + int" where
  "order_number_of_row row =
     (case py_index (split_on (CHR '','') (slice_1_m1 row)) 0 of
        Inl e \<Rightarrow> Inl e
      | Inr order_number_cell \<Rightarrow>
          (case py_index (split_on (CHR '':'') order_number_cell) 1 of
             Inl e \<Rightarrow> Inl e
           | Inr t \<Rightarrow> py_int t))"

fun rows_loop :: "int list \<Rightarrow> string list \<Rightarrow> exn + int list" where
  "rows_loop acc [] = Inr acc"
| "rows_loop acc (row # rows) =
     (case order_number_of_row row of
        Inl e \<Rightarrow> Inl e
      | Inr n \<Rightarrow> rows_loop (acc @ [n]) rows)"

fun values_loop :: "int list \<Rightarrow> string list list \<Rightarrow> exn + int list" where
  "values_loop acc [] = Inr acc"
| "values_loop acc (file_data # rest) =
     (case rows_loop acc file_data of
        Inl e \<Rightarrow> Inl e
      | Inr acc' \<Rightarrow> values_loop acc' rest)"

text \<open>\<open>Project.objects.exclude(order_number__in=uploaded_order_numbers)\<close>\<close>

definition exclude_order_number_in :: "int list \<Rightarrow> project list \<Rightarrow> project list" where
  "exclude_order_number_in ns ps = filter (\<lambda>p. order_number p \<notin> set ns) ps"

text \<open>\<open>p.delete()\<close> removes the row with the primary key of \<open>p\<close>, or raises and removes
  nothing. The loop of lines 117 and 118 stops at the first call that raises; the view
  opens no transaction, so the rows deleted before stay deleted.\<close>

definition delete_project :: "project \<Rightarrow> world \<Rightarrow> world" where
  "delete_project p w = w\<lparr>projects := filter (\<lambda>q. pk q \<noteq> pk p) (projects w)\<rparr>"

fun delete_loop ::
  "('c, 'b, 'ce, 'be, 'st) env \<Rightarrow> project list \<Rightarrow> world \<Rightarrow> exn option \<times> world" where
  "delete_loop env [] w = (None, w)"
| "delete_loop env (extra_proj_in_db # rest) w =
     (case delete_raises env extra_proj_in_db of
        Some e \<Rightarrow> (Some e, w)
      | None \<Rightarrow> delete_loop env rest (delete_project extra_proj_in_db w))"

text \<open>Lines 107 to 118, run after \<open>upload_successful = True\<close>.\<close>

definition delete_extra_projects ::
  "('c, 'b, 'ce, 'be, 'st) env \<Rightarrow> string \<Rightarrow> world \<Rightarrow> exn option \<times> world" where
  "delete_extra_projects env content w =
     (case json_loads content of
        Inl e \<Rightarrow> (Some e, w)
      | Inr file_json_format \<Rightarrow>
          (case values_loop [] (dict_values file_json_format) of
             Inl e \<Rightarrow> (Some e, w)
           | Inr uploaded_order_numbers \<Rightarrow>
               (let extra_projects = exclude_order_number_in uploaded_order_numbers (projects w);
                    w1 = add_log Info
                           (''Deleting '' @ str_nat (length extra_projects)
                              @ '' projects in CDB that were not available in new upload: ''
                              @ repr_projects env extra_projects) w
                in delete_loop env extra_projects w1)))"

text \<open>The body of the \<open>try\<close> (lines 96 to 118): the exception it raises, if any, the
  local variables and the state where it stops.\<close>

definition post_try ::
  "('c, 'b, 'ce, 'be, 'st) env \<Rightarrow> request \<Rightarrow> world
     \<Rightarrow> exn option \<times> ('ce, 'be, 'st) locals \<times> world" where
  "post_try env req w =
     (case parse_c11_file env (c11_file req) of
        Inl e \<Rightarrow> (Some e, initial_locals, w)
      | Inr (c11_data, c11_err) \<Rightarrow>
          (let l1 = initial_locals\<lparr>c11_data_error := c11_err\<rparr> in
           case parse_bw_file env (bw_file req) of
             Inl e \<Rightarrow> (Some e, l1, w)
           | Inr (bw_data, bw_err) \<Rightarrow>
               (let l2 = l1\<lparr>bw_data_error := bw_err\<rparr>;
                    l3 = l2\<lparr>file_content_var :=
                              make_file_content (map (bw_str env) bw_data)
                                (map (c11_str env) c11_data)\<rparr>
                in case build_objects env c11_data bw_data (projects w) of
                     (Inl e, ps) \<Rightarrow> (Some e, l3, w\<lparr>projects := ps\<rparr>)
                   | (Inr st, ps) \<Rightarrow>
                       (let l4 = l3\<lparr>statistics := Some st, upload_successful := True\<rparr>;
                            (raised, w1) =
                              delete_extra_projects env (file_content_var l4) (w\<lparr>projects := ps\<rparr>)
                        in (raised, l4, w1)))))"

text \<open>The local variables after line 100, when both files are parsed.\<close>

definition parsed_locals ::
  "('c, 'b, 'ce, 'be, 'st) env \<Rightarrow> 'c list \<Rightarrow> 'ce list \<Rightarrow> 'b list \<Rightarrow> 'be list
     \<Rightarrow> ('ce, 'be, 'st) locals" where
  "parsed_locals env c ce b be =
     \<lparr>statistics = None, c11_data_error = ce, bw_data_error = be, upload_successful = False,
      file_content_var = make_file_content (map (bw_str env) b) (map (c11_str env) c)\<rparr>"

text \<open>Both parsers and \<open>build_objects\<close> return: the point where line 103 sets
  \<open>upload_successful\<close>.\<close>

definition merged :: "('c, 'b, 'ce, 'be, 'st) env \<Rightarrow> request \<Rightarrow> world \<Rightarrow> bool" where
  "merged env req w =
     (case parse_c11_file env (c11_file req) of
        Inl _ \<Rightarrow> False
      | Inr (c11_data, _) \<Rightarrow>
          (case parse_bw_file env (bw_file req) of
             Inl _ \<Rightarrow> False
           | Inr (bw_data, _) \<Rightarrow>
               (case fst (build_objects env c11_data bw_data (projects w)) of
                  Inl _ \<Rightarrow> False
                | Inr _ \<Rightarrow> True)))"

text \<open>The \<open>except\<close> clauses (lines 120 to 136): what is still raised after them.\<close>

definition post_except :: "request \<Rightarrow> exn option \<Rightarrow> world \<Rightarrow> exn option \<times> world" where
  "post_except req raised w =
     (case raised of
        None \<Rightarrow> (None, w)
      | Some WrongExcelFileException \<Rightarrow>
          (None,
           add_message Warning
             (''One of the files was not correctly upload. ''
                @ ''Please make sure files are correctly selected and composed.'') w)
      | Some (OSError m) \<Rightarrow>
          (None,
           add_message Warning
             (''One of the files was not an Excel file. ''
                @ ''Please make sure files are correctly selected and composed.'') w)
      | Some e \<Rightarrow>
          if is_Exception e then
            (None,
             add_message Error (''There was an error while uploading files: '' @ str_exn e)
               (add_log Error
                  (''Files upload error: '' @ str_exn e @ ''. User: '' @ username (user_of req)) w))
          else (Some e, w))"

text \<open>Line 142: the label of the upload, cut to 99 characters.\<close>

definition upload_file_name :: "request \<Rightarrow> string" where
  "upload_file_name req =
     take 99 (''c11: '' @ name (c11_file req) @ '' - bw: '' @ name (bw_file req))"

text \<open>
  The \<open>finally\<close> clause (lines 138 to 153) and the last statement of \<open>post\<close>. The row gets
  the time of the request as its timestamp. When \<open>save\<close> raises, that exception leaves
  the view; the \<open>return\<close> inside \<open>finally\<close> discards an exception that is still raised.
\<close>

definition new_upload :: "request \<Rightarrow> ('ce, 'be, 'st) locals \<Rightarrow> upload" where
  "new_upload req l =
     \<lparr>creator = username (user_of req),
      file_name = upload_file_name req,
      file_content = file_content_var l,
      read_successful = upload_successful l,
      timestamp = utc_now req\<rparr>"

definition post_finally ::
  "('c, 'b, 'ce, 'be, 'st) env \<Rightarrow> request \<Rightarrow> form \<Rightarrow> exn option
     \<Rightarrow> ('ce, 'be, 'st) locals \<Rightarrow> world \<Rightarrow> (exn + ('ce, 'be, 'st) response) \<times> world" where
  "post_finally env req form raised l w =
     (case save_raises env of
        Some e \<Rightarrow> (Inl e, w)
      | None \<Rightarrow>
          (let w1 = w\<lparr>uploads := uploads w @ [new_upload req l]\<rparr>
           in if \<not> upload_successful l then
                (Inr (Render_upload_errors form (bw_data_error l) (c11_data_error l)), w1)
              else (case raised of
                      Some e \<Rightarrow> (Inl e, w1)
                    | None \<Rightarrow>
                        (Inr (Render_upload_statistics (statistics l)
                               (bw_data_error l) (c11_data_error l)), w1))))"

definition new_form :: form where
  "new_form = \<lparr>c11_file_disabled = False, bw_file_disabled = False\<rparr>"

text \<open>Line 82: a superuser, or a member of one of the two groups.\<close>

definition permitted :: "('c, 'b, 'ce, 'be, 'st) env \<Rightarrow> request \<Rightarrow> bool" where
  "permitted env req =
     (is_superuser (user_of req) \<or> is_user_in_groups env (user_of req) permitted_groups)"

definition post ::
  "('c, 'b, 'ce, 'be, 'st) env \<Rightarrow> request \<Rightarrow> world
     \<Rightarrow> (exn + ('ce, 'be, 'st) response) \<times> world" where
  "post env req w =
     (let form = new_form in
      case check_upload_allow env req w of
        Inl e \<Rightarrow> (Inl e, w)
      | Inr (allowed, w1) \<Rightarrow>
          if \<not> allowed \<or> \<not> permitted env req
          then (Inr (Render_upload (set_disabled True form)), w1)
          else if form_is_valid req then
            (let (raised, l, w2) = post_try env req w1;
                 (pending, w3) = post_except req raised w2
             in post_finally env req form pending l w3)
          else (Inr (Render_upload_errors form [] []), w1))"

section \<open>A concrete upload\<close>

text \<open>
  The store holds the projects 101, 102 and 103; the C11 file has one record, of order
  101, the BW file one record, of order 104, and one row in error; \<open>build_objects\<close>
  inserts project 104. The user is in the group Sales and nothing was uploaded before.
\<close>

definition example_user :: user where
  "example_user = \<lparr>username = ''sam'', is_staff = False, is_superuser = False\<rparr>"

definition example_request :: request where
  "example_request =
     \<lparr>user_of = example_user,
      utc_now = 20 * day_us + 3600000000,
      form_is_valid = True,
      c11_file = \<lparr>name = ''c11.xlsx'', bytes = ''c11''\<rparr>,
      bw_file = \<lparr>name = ''bw.xlsx'', bytes = ''bw''\<rparr>\<rparr>"

definition example_env :: "(string, string, string, string, nat) env" where
  "example_env =
     \<lparr>UPLOAD_ALLOWED_AFTER_DAYS = 7,
      is_user_in_groups = (\<lambda>u gs. username u = ''sam'' \<and> ''Sales'' \<in> set gs),
      parse_c11_file = (\<lambda>f. if bytes f = ''c11'' then Inr ([''{order_number:101,customer:ACME}''], [])
                            else Inl WrongExcelFileException),
      parse_bw_file = (\<lambda>f. if bytes f = ''bw'' then Inr ([''{order_number:104,hours:12}''], [''row 3''])
                           else Inl WrongExcelFileException),
      c11_str = (\<lambda>r. r),
      bw_str = (\<lambda>r. r),
      build_objects = (\<lambda>c b ps. (Inr (length c + length b), ps @ [\<lparr>pk = 14, order_number = 104\<rparr>])),
      delete_raises = (\<lambda>p. None),
      save_raises = None,
      repr_projects = (\<lambda>ps. ''<QuerySet>'')\<rparr>"

definition example_world :: world where
  "example_world =
     \<lparr>projects = [\<lparr>pk = 11, order_number = 101\<rparr>, \<lparr>pk = 12, order_number = 102\<rparr>,
                  \<lparr>pk = 13, order_number = 103\<rparr>],
      uploads = [],
      messages = [],
      logger = [],
      view_form = new_form\<rparr>"

text \<open>The same upload with a C11 file that is not a spreadsheet.\<close>

definition wrong_file_request :: request where
  "wrong_file_request = example_request\<lparr>c11_file := \<lparr>name = ''notes.txt'', bytes = ''text''\<rparr>\<rparr>"

text \<open>The same store three days after an upload.\<close>

definition recent_upload_world :: world where
  "recent_upload_world =
     example_world\<lparr>uploads :=
       [\<lparr>creator = ''sam'', file_name = ''c11: c11.xlsx - bw: bw.xlsx'', file_content = [],
         read_successful = True, timestamp = 17 * day_us + 3600000000\<rparr>]\<rparr>"

text \<open>The same upload when project 103 cannot be deleted (a protected foreign key, a
  database error): \<open>delete\<close> raises for it.\<close>

definition protected_env :: "(string, string, string, string, nat) env" where
  "protected_env =
     example_env\<lparr>delete_raises :=
       (\<lambda>p. if order_number p = 103 then Some (Exception ''protected'') else None)\<rparr>"

text \<open>The same upload when the deletion of project 103 fails with an \<open>OSError\<close>.\<close>

definition disk_error_env :: "(string, string, string, string, nat) env" where
  "disk_error_env =
     example_env\<lparr>delete_raises :=
       (\<lambda>p. if order_number p = 103 then Some (OSError ''disk'') else None)\<rparr>"

text \<open>The same upload with a form that does not validate, and from a user who is neither
  superuser nor member of a permitted group.\<close>

definition invalid_form_request :: request where
  "invalid_form_request = example_request\<lparr>form_is_valid := False\<rparr>"

definition outsider_request :: request where
  "outsider_request =
     example_request\<lparr>user_of := \<lparr>username = ''kim'', is_staff = False, is_superuser = False\<rparr>\<rparr>"

text \<open>A request at 15:00 of the same day.\<close>

definition afternoon_request :: request where
  "afternoon_request = example_request\<lparr>utc_now := 20 * day_us + 54000000000\<rparr>"

section \<open>Decoding what was encoded\<close>

text \<open>\<open>json.loads\<close> gives back the lists that \<open>json.dumps\<close> wrote: the view always
  decodes its own \<open>file_content\<close> without error.\<close>

lemma of_char_lt_256: "(of_char c :: nat) < 256"
  by (cases c) (simp add: of_char_def)

lemma hex_val_hex_char: "d < 16 \<Longrightarrow> hex_val (hex_char d) = Some d"
  by (auto simp: hex_val_def hex_char_def Let_def)

lemma hex4_encode:
  "hex4 (CHR ''0'') (CHR ''0'') (hex_char ((of_char c :: nat) div 16)) (hex_char ((of_char c :: nat) mod 16))
     = Some (of_char c)"
proof -
  have a: "(of_char c :: nat) div 16 < 16" using of_char_lt_256 [of c] by arith
  have b: "(of_char c :: nat) mod 16 < 16" by simp
  have z: "hex_val (CHR ''0'') = Some 0" by (simp add: hex_val_def)
  show ?thesis
    by (simp add: hex4_def z hex_val_hex_char [OF a] hex_val_hex_char [OF b])
qed

lemma scanstring_encode_char:
  "scanstring (encode_char c @ t) = prepend c (scanstring t)"
proof -
  have n: "(of_char c :: nat) < 256" by (rule of_char_lt_256)
  show ?thesis
    by (auto simp: encode_char_def unescape_def hex4_encode n)
qed

lemma scanstring_encode:
  "scanstring (concat (map encode_char s) @ CHR 0x22 # rest) = Some (s, rest)"
  by (induction s) (simp_all add: scanstring_encode_char prepend_def)


lemma skip_ws_quote [simp]: "skip_ws (CHR 0x22 # t) = CHR 0x22 # t"
  by (simp add: skip_ws_def is_json_ws_def)

lemma skip_ws_space [simp]: "skip_ws (CHR '' '' # t) = skip_ws t"
  by (simp add: skip_ws_def is_json_ws_def)

lemma skip_ws_punct [simp]:
  "skip_ws (CHR '','' # t) = CHR '','' # t"
  "skip_ws (CHR '']'' # t) = CHR '']'' # t"
  "skip_ws (CHR ''['' # t) = CHR ''['' # t"
  "skip_ws (CHR ''{'' # t) = CHR ''{'' # t"
  "skip_ws (CHR ''}'' # t) = CHR ''}'' # t"
  "skip_ws (CHR '':'' # t) = CHR '':'' # t"
  by (simp_all add: skip_ws_def is_json_ws_def)

lemma parse_items_encoded:
  "parse_items (encode_basestring_ascii x @ t) =
     (case skip_ws t of
        [] \<Rightarrow> None
      | d # r' \<Rightarrow>
          if d = CHR '']'' then Some ([x], r')
          else if d = CHR '','' then
            (case parse_items (skip_ws r') of
               None \<Rightarrow> None
             | Some (vs, r'') \<Rightarrow> Some (x # vs, r''))
          else None)"
  by (subst parse_items.simps) (simp add: encode_basestring_ascii_def scanstring_encode)

lemma join_items_starts_with_quote:
  "xs \<noteq> [] \<Longrightarrow> \<exists>u. join_items (map encode_basestring_ascii xs) @ t = CHR 0x22 # u"
  by (induction xs rule: join_items.induct) (simp_all add: encode_basestring_ascii_def)

lemma skip_ws_join_items:
  "xs \<noteq> [] \<Longrightarrow> skip_ws (join_items (map encode_basestring_ascii xs) @ t)
     = join_items (map encode_basestring_ascii xs) @ t"
  using join_items_starts_with_quote [of xs t] by auto

lemma parse_items_dumps:
  "xs \<noteq> [] \<Longrightarrow>
   parse_items (join_items (map encode_basestring_ascii xs) @ CHR '']'' # rest) = Some (xs, rest)"
proof (induction xs rule: join_items.induct [case_names Nil One More])
  case Nil
  then show ?case by simp
next
  case (One x)
  show ?case by (simp add: parse_items_encoded)
next
  case (More x y ys)
  define tail where "tail = join_items (map encode_basestring_ascii (y # ys)) @ CHR '']'' # rest"
  have ih: "parse_items tail = Some (y # ys, rest)"
    using More.IH by (simp add: tail_def)
  have sk: "skip_ws tail = tail"
    unfolding tail_def by (rule skip_ws_join_items) simp
  have "join_items (map encode_basestring_ascii (x # y # ys)) @ CHR '']'' # rest
          = encode_basestring_ascii x @ CHR '','' # CHR '' '' # tail"
    by (simp add: tail_def)
  then have "parse_items (join_items (map encode_basestring_ascii (x # y # ys)) @ CHR '']'' # rest)
          = parse_items (encode_basestring_ascii x @ CHR '','' # CHR '' '' # tail)"
    by (rule arg_cong)
  also have "\<dots> = Some (x # y # ys, rest)"
    by (simp add: parse_items_encoded sk ih)
  finally show ?case .
qed

lemma parse_array_dumps: "parse_array (json_dumps xs @ rest) = Some (xs, rest)"
proof (cases xs)
  case Nil
  then show ?thesis by (simp add: parse_array_def json_dumps_def)
next
  case (Cons y ys)
  then have ne: "xs \<noteq> []" by simp
  obtain u where u: "join_items (map encode_basestring_ascii xs) @ CHR '']'' # rest = CHR 0x22 # u"
    using join_items_starts_with_quote [OF ne] by blast
  have "parse_array (json_dumps xs @ rest)
          = parse_items (join_items (map encode_basestring_ascii xs) @ CHR '']'' # rest)"
    by (simp add: parse_array_def json_dumps_def u)
  then show ?thesis by (simp add: parse_items_dumps [OF ne])
qed

lemma parse_members_step:
  "parse_members (CHR 0x22 # concat (map encode_char k) @ CHR 0x22 # CHR '':'' # CHR '' '' # json_dumps v @ t) =
     (case skip_ws t of
        [] \<Rightarrow> None
      | e # r3 \<Rightarrow>
          if e = CHR ''}'' then Some ([(k, v)], r3)
          else if e = CHR '','' then
            (case parse_members (skip_ws r3) of
               None \<Rightarrow> None
             | Some (kvs, r4) \<Rightarrow> Some ((k, v) # kvs, r4))
          else None)"
proof -
  have sk: "skip_ws (json_dumps v @ t) = json_dumps v @ t"
    by (simp add: json_dumps_def)
  show ?thesis
    by (subst parse_members.simps) (simp add: scanstring_encode sk parse_array_dumps)
qed

lemma json_loads_file_content:
  "json_loads (make_file_content bs cs) = Inr [(''c11_data'', bs), (''bw_data'', cs)]"
proof -
  define t2 where "t2 = CHR 0x22 # concat (map encode_char ''bw_data'') @
                          CHR 0x22 # CHR '':'' # CHR '' '' # json_dumps cs @ ''}''"
  define t1 where "t1 = CHR 0x22 # concat (map encode_char ''c11_data'') @
                          CHR 0x22 # CHR '':'' # CHR '' '' # json_dumps bs @ CHR '','' # CHR '' '' # t2"
  have m2: "parse_members t2 = Some ([(''bw_data'', cs)], [])"
    unfolding t2_def by (subst parse_members_step) simp
  have s2: "skip_ws t2 = t2"
    by (simp add: t2_def)
  have m1: "parse_members t1 = Some ([(''c11_data'', bs), (''bw_data'', cs)], [])"
    unfolding t1_def by (subst parse_members_step) (simp add: s2 m2)
  have fc: "make_file_content bs cs = CHR ''{'' # t1"
    by (simp add: make_file_content_def t1_def t2_def encode_char_def)
  have q: "\<exists>u. t1 = CHR 0x22 # u"
    by (simp add: t1_def)
  then obtain u where u: "t1 = CHR 0x22 # u" by blast
  have po: "parse_object (CHR ''{'' # t1) = Some ([(''c11_data'', bs), (''bw_data'', cs)], [])"
    using m1 by (simp add: parse_object_def u)
  show ?thesis
  proof -
    have e: "skip_ws [] = []" by (simp add: skip_ws_def)
    show ?thesis
      by (simp add: json_loads_def fc po dict_of_pairs_def e)
  qed
qed

section \<open>What each step of the view changes\<close>

lemma add_message_fields [simp]:
  "projects (add_message l m w) = projects w"
  "uploads (add_message l m w) = uploads w"
  "logger (add_message l m w) = logger w"
  "messages (add_message l m w) = messages w @ [(l, m)]"
  "view_form (add_message l m w) = view_form w"
  by (simp_all add: add_message_def)

lemma add_log_fields [simp]:
  "projects (add_log l m w) = projects w"
  "uploads (add_log l m w) = uploads w"
  "messages (add_log l m w) = messages w"
  "logger (add_log l m w) = logger w @ [(l, m)]"
  "view_form (add_log l m w) = view_form w"
  by (simp_all add: add_log_def)

lemma check_upload_allow_Inr:
  assumes "check_upload_allow env req w = Inr (allowed, w1)"
  shows "projects w1 = projects w" and "uploads w1 = uploads w" and "logger w1 = logger w"
    and "view_form w1 = view_form w" and "allowed \<Longrightarrow> w1 = w"
  using assms by (auto simp: check_upload_allow_def split: sum.splits if_splits)

lemma delete_project_fields [simp]:
  "uploads (delete_project p w) = uploads w"
  "messages (delete_project p w) = messages w"
  "logger (delete_project p w) = logger w"
  by (simp_all add: delete_project_def)

lemma delete_loop_uploads [simp]: "uploads (snd (delete_loop env ps w)) = uploads w"
  by (induction ps arbitrary: w) (simp_all split: option.splits)

lemma delete_loop_messages [simp]: "messages (snd (delete_loop env ps w)) = messages w"
  by (induction ps arbitrary: w) (simp_all split: option.splits)

lemma delete_extra_projects_uploads [simp]:
  "uploads (snd (delete_extra_projects env content w)) = uploads w"
  by (simp add: delete_extra_projects_def Let_def split: sum.splits)

lemma delete_extra_projects_messages [simp]:
  "messages (snd (delete_extra_projects env content w)) = messages w"
  by (simp add: delete_extra_projects_def Let_def split: sum.splits)

lemma post_try_uploads [simp]:
  "uploads (snd (snd (post_try env req w))) = uploads w"
  by (simp add: post_try_def Let_def split_beta split: sum.splits prod.splits)

lemma post_try_messages [simp]:
  "messages (snd (snd (post_try env req w))) = messages w"
  by (simp add: post_try_def Let_def split_beta split: sum.splits prod.splits)

lemma post_except_fields [simp]:
  "uploads (snd (post_except req raised w)) = uploads w"
  "projects (snd (post_except req raised w)) = projects w"
  by (simp_all add: post_except_def split: option.splits exn.splits)

lemma upload_allowed_iff:
  "upload_allowed env req w \<longleftrightarrow> check_upload_allow env req w = Inr (True, w)"
  by (auto simp: upload_allowed_def check_upload_allow_def split: sum.splits if_splits)

lemma post_denied:
  "\<not> upload_allowed env req w \<or> \<not> permitted env req \<Longrightarrow>
   post env req w =
     (case check_upload_allow env req w of
        Inl e \<Rightarrow> (Inl e, w)
      | Inr (allowed, w1) \<Rightarrow> (Inr (Render_upload (set_disabled True new_form)), w1))"
  by (auto simp: post_def upload_allowed_def Let_def split: sum.splits prod.splits)

lemma post_denied_fields:
  assumes "\<not> upload_allowed env req w \<or> \<not> permitted env req"
  shows "projects (snd (post env req w)) = projects w"
    and "uploads (snd (post env req w)) = uploads w"
    and "logger (snd (post env req w)) = logger w"
proof -
  show "projects (snd (post env req w)) = projects w"
    by (simp add: post_denied [OF assms] check_upload_allow_Inr split: sum.splits prod.splits)
  show "uploads (snd (post env req w)) = uploads w"
    by (simp add: post_denied [OF assms] check_upload_allow_Inr split: sum.splits prod.splits)
  show "logger (snd (post env req w)) = logger w"
    by (simp add: post_denied [OF assms] check_upload_allow_Inr split: sum.splits prod.splits)
qed

lemma post_invalid_form:
  "upload_allowed env req w \<Longrightarrow> permitted env req \<Longrightarrow> \<not> form_is_valid req \<Longrightarrow>
   post env req w = (Inr (Render_upload_errors new_form [] []), w)"
  by (simp add: post_def Let_def upload_allowed_iff)

lemma post_attempt:
  "upload_allowed env req w \<Longrightarrow> permitted env req \<Longrightarrow> form_is_valid req \<Longrightarrow>
   post env req w =
     post_finally env req new_form
       (fst (post_except req (fst (post_try env req w)) (snd (snd (post_try env req w)))))
       (fst (snd (post_try env req w)))
       (snd (post_except req (fst (post_try env req w)) (snd (snd (post_try env req w)))))"
  by (simp add: post_def Let_def split_beta upload_allowed_iff)

lemma post_finally_uploads:
  "uploads (snd (post_finally env req form pending l w)) =
     (if save_raises env = None then uploads w @ [new_upload req l] else uploads w)"
  by (simp add: post_finally_def Let_def split: option.splits)

lemma post_uploads:
  "uploads (snd (post env req w)) =
     (if upload_allowed env req w \<and> permitted env req \<and> form_is_valid req
         \<and> save_raises env = None
      then uploads w @ [new_upload req (fst (snd (post_try env req w)))]
      else uploads w)"
proof (cases "upload_allowed env req w \<and> permitted env req")
  case False
  then show ?thesis using post_denied_fields [of env req w] by auto
next
  case True
  show ?thesis
  proof (cases "form_is_valid req")
    case False
    with True show ?thesis by (simp add: post_invalid_form)
  next
    case v: True
    with True show ?thesis by (simp add: post_attempt post_finally_uploads)
  qed
qed

section \<open>The stages of the pipeline\<close>

lemma post_try_c11_raises:
  "parse_c11_file env (c11_file req) = Inl e \<Longrightarrow> post_try env req w = (Some e, initial_locals, w)"
  by (simp add: post_try_def)

lemma post_try_bw_raises:
  "parse_c11_file env (c11_file req) = Inr (c, ce) \<Longrightarrow> parse_bw_file env (bw_file req) = Inl e \<Longrightarrow>
   post_try env req w = (Some e, initial_locals\<lparr>c11_data_error := ce\<rparr>, w)"
  by (simp add: post_try_def)

lemma post_try_build_raises:
  "parse_c11_file env (c11_file req) = Inr (c, ce) \<Longrightarrow>
   parse_bw_file env (bw_file req) = Inr (b, be) \<Longrightarrow>
   build_objects env c b (projects w) = (Inl e, ps) \<Longrightarrow>
   post_try env req w = (Some e, parsed_locals env c ce b be, w\<lparr>projects := ps\<rparr>)"
  by (simp add: post_try_def parsed_locals_def initial_locals_def)

lemma post_try_merged:
  "parse_c11_file env (c11_file req) = Inr (c, ce) \<Longrightarrow>
   parse_bw_file env (bw_file req) = Inr (b, be) \<Longrightarrow>
   build_objects env c b (projects w) = (Inr st, ps) \<Longrightarrow>
   post_try env req w =
     (fst (delete_extra_projects env (make_file_content (map (bw_str env) b) (map (c11_str env) c))
             (w\<lparr>projects := ps\<rparr>)),
      (parsed_locals env c ce b be)\<lparr>statistics := Some st, upload_successful := True\<rparr>,
      snd (delete_extra_projects env (make_file_content (map (bw_str env) b) (map (c11_str env) c))
             (w\<lparr>projects := ps\<rparr>)))"
  by (simp add: post_try_def parsed_locals_def initial_locals_def Let_def split_beta)

lemma rows_loop_append:
  "rows_loop acc (xs @ ys) =
     (case rows_loop acc xs of Inl e \<Rightarrow> Inl e | Inr acc' \<Rightarrow> rows_loop acc' ys)"
  by (induction xs arbitrary: acc) (simp_all split: sum.splits)

lemma values_loop_two: "values_loop [] [bs, cs] = rows_loop [] (bs @ cs)"
  by (simp add: rows_loop_append split: sum.splits)

lemma rows_loop_Inr:
  "rows_loop acc rows = Inr ns \<longleftrightarrow>
     (\<exists>ms. map order_number_of_row rows = map Inr ms \<and> ns = acc @ ms)"
proof (induction rows arbitrary: acc)
  case Nil
  then show ?case by auto
next
  case (Cons row rows)
  show ?case
  proof (cases "order_number_of_row row")
    case (Inl e)
    then show ?thesis by (auto simp: map_eq_Cons_conv)
  next
    case (Inr n)
    then show ?thesis
      by (auto simp: Cons.IH map_eq_Cons_conv)
  qed
qed

lemma rows_loop_Inl:
  "rows_loop acc rows = Inl e \<Longrightarrow> \<exists>row \<in> set rows. order_number_of_row row = Inl e"
  by (induction rows arbitrary: acc) (auto split: sum.splits)

lemma rows_loop_Inl_of_row:
  assumes "\<exists>row \<in> set rows. \<exists>e. order_number_of_row row = Inl e"
  obtains e where "rows_loop acc rows = Inl e"
proof (cases "rows_loop acc rows")
  case (Inl e)
  then show ?thesis by (rule that)
next
  case (Inr ns)
  then obtain ms where "map order_number_of_row rows = map Inr ms"
    by (auto simp: rows_loop_Inr)
  then have "\<forall>row \<in> set rows. \<exists>n. order_number_of_row row = Inr n"
    by (metis (no_types, lifting) imageE image_eqI list.set_map)
  with assms show ?thesis by auto
qed

lemma order_number_of_row_error:
  "order_number_of_row row = Inl e \<Longrightarrow> (\<exists>m. e = IndexError m) \<or> (\<exists>m. e = ValueError m)"
  by (auto simp: order_number_of_row_def py_index_def py_int_def Let_def
      split: sum.splits if_splits option.splits)

lemma delete_loop_projects:
  "projects (snd (delete_loop env xs w)) =
     filter (\<lambda>q. pk q \<notin> pk ` set (takeWhile (\<lambda>p. delete_raises env p = None) xs)) (projects w)"
proof (induction xs arbitrary: w)
  case Nil
  then show ?case by simp
next
  case (Cons x xs)
  show ?case
  proof (cases "delete_raises env x")
    case None
    then show ?thesis
      by (simp add: Cons.IH delete_project_def)
  next
    case (Some e)
    then show ?thesis by simp
  qed
qed

lemma delete_loop_raised:
  "fst (delete_loop env xs w) =
     (case dropWhile (\<lambda>p. delete_raises env p = None) xs of
        [] \<Rightarrow> None
      | p # _ \<Rightarrow> delete_raises env p)"
  by (induction xs arbitrary: w) (simp_all split: option.splits)

lemma delete_extra_projects_file_content:
  "delete_extra_projects env (make_file_content bs cs) w =
     (case rows_loop [] (bs @ cs) of
        Inl e \<Rightarrow> (Some e, w)
      | Inr ns \<Rightarrow>
          delete_loop env (exclude_order_number_in ns (projects w))
            (add_log Info
               (''Deleting '' @ str_nat (length (exclude_order_number_in ns (projects w)))
                  @ '' projects in CDB that were not available in new upload: ''
                  @ repr_projects env (exclude_order_number_in ns (projects w))) w))"
  by (simp add: delete_extra_projects_def json_loads_file_content dict_values_def
      values_loop_two [simplified] Let_def rows_loop_append split: sum.splits)

lemma post_finally_fields [simp]:
  "projects (snd (post_finally env req form pending l w)) = projects w"
  "messages (snd (post_finally env req form pending l w)) = messages w"
  "logger (snd (post_finally env req form pending l w)) = logger w"
  by (simp_all add: post_finally_def Let_def split: option.splits)

lemma post_projects:
  "projects (snd (post env req w)) =
     (if upload_allowed env req w \<and> permitted env req \<and> form_is_valid req
      then projects (snd (snd (post_try env req w)))
      else projects w)"
proof (cases "upload_allowed env req w \<and> permitted env req")
  case False
  then show ?thesis using post_denied_fields [of env req w] by auto
next
  case True
  show ?thesis
  proof (cases "form_is_valid req")
    case False
    with True show ?thesis by (simp add: post_invalid_form)
  next
    case v: True
    with True show ?thesis by (simp add: post_attempt)
  qed
qed

lemma post_try_file_content:
  assumes "parse_c11_file env (c11_file req) = Inr (c, ce)"
    and "parse_bw_file env (bw_file req) = Inr (b, be)"
  shows "file_content_var (fst (snd (post_try env req w))) =
           make_file_content (map (bw_str env) b) (map (c11_str env) c)"
proof (cases "build_objects env c b (projects w)")
  case (Pair res ps)
  show ?thesis
  proof (cases res)
    case (Inl e)
    with Pair assms show ?thesis by (simp add: post_try_build_raises parsed_locals_def)
  next
    case (Inr st)
    with Pair assms show ?thesis by (simp add: post_try_merged parsed_locals_def)
  qed
qed

lemma survivors_of_distinct:
  assumes "distinct (map pk ps)"
  shows "filter (\<lambda>q. pk q \<notin> pk ` set (filter (\<lambda>p. order_number p \<notin> set ns) ps)) ps
           = filter (\<lambda>p. order_number p \<in> set ns) ps"
proof (rule filter_cong [OF refl])
  fix q assume q: "q \<in> set ps"
  have inj: "inj_on pk (set ps)" using assms by (simp add: distinct_map)
  show "(pk q \<notin> pk ` set (filter (\<lambda>p. order_number p \<notin> set ns) ps)) = (order_number q \<in> set ns)"
  proof
    assume a: "pk q \<notin> pk ` set (filter (\<lambda>p. order_number p \<notin> set ns) ps)"
    show "order_number q \<in> set ns"
    proof (rule ccontr)
      assume "order_number q \<notin> set ns"
      with q have "q \<in> set (filter (\<lambda>p. order_number p \<notin> set ns) ps)" by simp
      with a show False by blast
    qed
  next
    assume b: "order_number q \<in> set ns"
    show "pk q \<notin> pk ` set (filter (\<lambda>p. order_number p \<notin> set ns) ps)"
    proof
      assume "pk q \<in> pk ` set (filter (\<lambda>p. order_number p \<notin> set ns) ps)"
      then obtain p where p: "p \<in> set ps" "order_number p \<notin> set ns" "pk q = pk p" by auto
      from inj q p(1) p(3) have "q = p" by (auto dest: inj_onD)
      with b p(2) show False by simp
    qed
  qed
qed

lemma post_try_upload_successful:
  "upload_successful (fst (snd (post_try env req w))) = merged env req w"
  by (simp add: post_try_def merged_def initial_locals_def Let_def split_beta
      split: sum.splits prod.splits)

lemma post_try_statistics:
  "merged env req w \<Longrightarrow> \<exists>st. statistics (fst (snd (post_try env req w))) = Some st"
  by (auto simp: post_try_def merged_def initial_locals_def Let_def split_beta
      split: sum.splits prod.splits)

lemma post_except_caught:
  assumes "\<forall>e. raised = Some e \<longrightarrow> is_Exception e"
  shows "fst (post_except req raised w) = None"
  using assms by (auto simp: post_except_def split: option.splits exn.splits)

lemma post_except_levels:
  assumes "\<forall>e. raised = Some e \<longrightarrow> is_Exception e"
  shows "map fst (messages (snd (post_except req raised w))) =
           map fst (messages w) @
             (case raised of
                None \<Rightarrow> []
              | Some WrongExcelFileException \<Rightarrow> [Warning]
              | Some (OSError m) \<Rightarrow> [Warning]
              | Some e \<Rightarrow> [Error])"
  using assms by (auto simp: post_except_def split: option.splits exn.splits)

section \<open>The concrete upload, evaluated\<close>

lemma example_allowed: "upload_allowed example_env example_request example_world"
  by (simp add: upload_allowed_def check_upload_allow_def days_to_next_upload_def
      example_world_def order_by_timestamp_desc_def)

lemma example_permitted: "permitted example_env example_request"
  by (simp add: permitted_def example_env_def example_request_def example_user_def
      permitted_groups_def)

lemma example_post:
  "post example_env example_request example_world =
     (Inr (Render_upload_statistics (Some 2) [''row 3''] []),
      \<lparr>projects = [\<lparr>pk = 11, order_number = 101\<rparr>, \<lparr>pk = 14, order_number = 104\<rparr>],
       uploads = [\<lparr>creator = ''sam'', file_name = ''c11: c11.xlsx - bw: bw.xlsx'',
                   file_content = make_file_content [''{order_number:104,hours:12}'']
                                    [''{order_number:101,customer:ACME}''],
                   read_successful = True, timestamp = 1731600000000\<rparr>],
       messages = [],
       logger = [(Info, ''Deleting 2 projects in CDB that were not available in new upload: <QuerySet>'')],
       view_form = new_form\<rparr>)"
  by code_simp

lemma example_rows:
  "order_number_of_row ''{order_number:104,hours:12}'' = Inr 104"
  "order_number_of_row ''{order_number:101,customer:ACME}'' = Inr 101"
  by code_simp+

lemma protected_post:
  "post protected_env example_request example_world =
     (Inr (Render_upload_statistics (Some 2) [''row 3''] []),
      \<lparr>projects = [\<lparr>pk = 11, order_number = 101\<rparr>, \<lparr>pk = 13, order_number = 103\<rparr>,
                   \<lparr>pk = 14, order_number = 104\<rparr>],
       uploads = [\<lparr>creator = ''sam'', file_name = ''c11: c11.xlsx - bw: bw.xlsx'',
                   file_content = make_file_content [''{order_number:104,hours:12}'']
                                    [''{order_number:101,customer:ACME}''],
                   read_successful = True, timestamp = 1731600000000\<rparr>],
       messages = [(Error, ''There was an error while uploading files: protected'')],
       logger = [(Info, ''Deleting 2 projects in CDB that were not available in new upload: <QuerySet>''),
                 (Error, ''Files upload error: protected. User: sam'')],
       view_form = new_form\<rparr>)"
  by code_simp

lemma protected_post_try_raised:
  "fst (post_try protected_env example_request example_world) = Some (Exception ''protected'')"
  by code_simp

lemma invalid_form_post:
  "post example_env invalid_form_request example_world =
     (Inr (Render_upload_errors new_form [] []), example_world)"
  by code_simp

lemma outsider_post:
  "post example_env outsider_request example_world =
     (Inr (Render_upload (set_disabled True new_form)), example_world)"
  by code_simp

lemma outsider_get:
  "get example_env outsider_request example_world =
     (Inr (Render_upload new_form),
      example_world\<lparr>messages := [(Warning, ''User not allowed to perform this action'')],
                    logger := [(Error, ''User kim is not allowed to see upload content'')]\<rparr>)"
  by code_simp

lemma protected_stale:
  "exclude_order_number_in [104, 101]
     [\<lparr>pk = 11, order_number = 101\<rparr>, \<lparr>pk = 12, order_number = 102\<rparr>,
      \<lparr>pk = 13, order_number = 103\<rparr>, \<lparr>pk = 14, order_number = 104\<rparr>]
   = [\<lparr>pk = 12, order_number = 102\<rparr>, \<lparr>pk = 13, order_number = 103\<rparr>]"
  by (simp add: exclude_order_number_in_def)

lemma protected_allowed: "upload_allowed protected_env example_request example_world"
  by (simp add: upload_allowed_def check_upload_allow_def days_to_next_upload_def
      example_world_def order_by_timestamp_desc_def)

lemma protected_permitted: "permitted protected_env example_request"
  by (simp add: permitted_def protected_env_def example_env_def example_request_def
      example_user_def permitted_groups_def)

section \<open>The label of an upload\<close>

text \<open>
  C7. Whatever the two file names are, \<open>post\<close> stores at most one new \<open>Upload\<close> row, and
  the \<open>file_name\<close> of that row is the text \<open>c11: <name> - bw: <name>\<close> cut to its first 99
  characters and nothing else: it is at most 99 characters long, and no other check or
  change is applied to it.
\<close>

theorem file_name_truncated:
  "uploads (snd (post env req w)) = uploads w \<or>
   (\<exists>r. uploads (snd (post env req w)) = uploads w @ [r] \<and>
        file_name r = take 99 (''c11: '' @ name (c11_file req) @ '' - bw: '' @ name (bw_file req)) \<and>
        length (file_name r) \<le> 99)"
proof (cases "upload_allowed env req w \<and> permitted env req \<and> form_is_valid req
               \<and> save_raises env = None")
  case False
  then have "uploads (snd (post env req w)) = uploads w"
    by (simp add: post_uploads)
  then show ?thesis ..
next
  case True
  define r :: upload where "r = new_upload req (fst (snd (post_try env req w)))"
  have u: "uploads (snd (post env req w)) = uploads w @ [r]"
    using True by (simp add: post_uploads r_def)
  have n: "file_name r =
             take 99 (''c11: '' @ name (c11_file req) @ '' - bw: '' @ name (bw_file req))"
    by (simp add: r_def new_upload_def upload_file_name_def)
  have "length (take 99 (''c11: '' @ name (c11_file req) @ '' - bw: '' @ name (bw_file req))) \<le> 99"
    by (simp only: length_take min.cobounded2)
  with u n show ?thesis by auto
qed

theorem file_name_truncated_witness:
  "\<exists>r. uploads (snd (post example_env example_request example_world)) = [r] \<and>
       file_name r = ''c11: c11.xlsx - bw: bw.xlsx''"
proof -
  have "uploads (snd (post example_env example_request example_world)) \<noteq> uploads example_world"
    by (simp add: post_uploads example_allowed example_permitted)
       (simp add: example_request_def example_env_def)
  moreover have "uploads example_world = []"
    by (simp add: example_world_def)
  moreover have "take 99 (''c11: '' @ name (c11_file example_request) @ '' - bw: ''
                   @ name (bw_file example_request)) = ''c11: c11.xlsx - bw: bw.xlsx''"
    by (simp add: example_request_def)
  ultimately show ?thesis
    using file_name_truncated [of example_env example_request example_world] by auto
qed

section \<open>Reconciliation\<close>

text \<open>
  C1. An upload attempt that runs to its end deletes exactly the stale projects. The
  attempt passes the cadence gate and the permission check with a valid form, both
  parsers and \<open>build_objects\<close> return, every row of the decoded content yields an order
  number (\<open>ns\<close>, the BW rows first), and no call of \<open>delete\<close> on a stale project raises.
  Then the store after \<open>post\<close> is the store that \<open>build_objects\<close> left, without the
  projects whose order number is not in \<open>ns\<close>: each of those is deleted, and no project
  whose order number is in \<open>ns\<close> is. Primary keys are distinct, as in any table.
\<close>

theorem stale_projects_deleted:
  assumes "upload_allowed env req w" and "permitted env req" and "form_is_valid req"
    and c11: "parse_c11_file env (c11_file req) = Inr (c, ce)"
    and bw: "parse_bw_file env (bw_file req) = Inr (b, be)"
    and build: "build_objects env c b (projects w) = (Inr st, ps)"
    and numbers: "map order_number_of_row (map (bw_str env) b @ map (c11_str env) c) = map Inr ns"
    and deletes: "\<forall>p \<in> set ps. order_number p \<notin> set ns \<longrightarrow> delete_raises env p = None"
    and keys: "distinct (map pk ps)"
  shows "projects (snd (post env req w)) = filter (\<lambda>p. order_number p \<in> set ns) ps"
proof -
  let ?stale = "exclude_order_number_in ns ps"
  have rl: "rows_loop [] (map (bw_str env) b @ map (c11_str env) c) = Inr ns"
    using numbers by (simp add: rows_loop_Inr)
  have all: "takeWhile (\<lambda>p. delete_raises env p = None) ?stale = ?stale"
    using deletes by (intro takeWhile_eq_all_conv [THEN iffD2]) (simp add: exclude_order_number_in_def)
  have "projects (snd (post env req w)) = projects (snd (snd (post_try env req w)))"
    using assms(1-3) by (simp add: post_projects)
  also have "\<dots> = filter (\<lambda>q. pk q \<notin> pk ` set ?stale) ps"
    by (simp add: post_try_merged [OF c11 bw build] delete_extra_projects_file_content rl
        delete_loop_projects all)
  also have "\<dots> = filter (\<lambda>p. order_number p \<in> set ns) ps"
    unfolding exclude_order_number_in_def by (rule survivors_of_distinct [OF keys])
  finally show ?thesis .
qed

text \<open>With the store 101, 102, 103 and the upload 101, 104: 102 and 103 are deleted,
  101 survives (and 104 was inserted by \<open>build_objects\<close>).\<close>

theorem stale_projects_deleted_witness:
  "projects (snd (post example_env example_request example_world)) =
     [\<lparr>pk = 11, order_number = 101\<rparr>, \<lparr>pk = 14, order_number = 104\<rparr>]"
proof -
  have c11: "parse_c11_file example_env (c11_file example_request)
               = Inr ([''{order_number:101,customer:ACME}''], [])"
    by (simp add: example_env_def example_request_def)
  have bw: "parse_bw_file example_env (bw_file example_request)
              = Inr ([''{order_number:104,hours:12}''], [''row 3''])"
    by (simp add: example_env_def example_request_def)
  have build: "build_objects example_env [''{order_number:101,customer:ACME}'']
                 [''{order_number:104,hours:12}''] (projects example_world)
               = (Inr 2, [\<lparr>pk = 11, order_number = 101\<rparr>, \<lparr>pk = 12, order_number = 102\<rparr>,
                          \<lparr>pk = 13, order_number = 103\<rparr>, \<lparr>pk = 14, order_number = 104\<rparr>])"
    by (simp add: example_env_def example_world_def)
  have numbers: "map order_number_of_row
                   (map (bw_str example_env) [''{order_number:104,hours:12}'']
                      @ map (c11_str example_env) [''{order_number:101,customer:ACME}''])
                 = map Inr [104, 101]"
    by (simp add: example_env_def example_rows)
  have deletes: "\<forall>p \<in> set [\<lparr>pk = 11, order_number = 101\<rparr>, \<lparr>pk = 12, order_number = 102\<rparr>,
                             \<lparr>pk = 13, order_number = 103\<rparr>, \<lparr>pk = 14, order_number = 104\<rparr>].
                   order_number p \<notin> set [104, 101] \<longrightarrow> delete_raises example_env p = None"
    by (simp add: example_env_def)
  have valid: "form_is_valid example_request"
    by (simp add: example_request_def)
  show ?thesis
    using stale_projects_deleted [OF example_allowed example_permitted valid c11 bw build numbers deletes]
    by simp
qed

text \<open>
  C2. When a parser raises (\<open>WrongExcelFileException\<close> or any other exception), for the
  C11 file or for the BW file, the reconciliation does not run: the projects of the store
  are the same before and after \<open>post\<close>, so is the list of their order numbers, and the
  log line of the deletion is not written.
\<close>

theorem parse_failure_leaves_store:
  assumes "parse_c11_file env (c11_file req) = Inl e \<or> parse_bw_file env (bw_file req) = Inl e"
  shows "projects (snd (post env req w)) = projects w
         \<and> map order_number (projects (snd (post env req w))) = map order_number (projects w)
         \<and> filter (\<lambda>entry. fst entry = Info) (logger (snd (post env req w)))
             = filter (\<lambda>entry. fst entry = Info) (logger w)"
proof -
  have t: "projects (snd (snd (post_try env req w))) = projects w
           \<and> logger (snd (snd (post_try env req w))) = logger w"
  proof (cases "parse_c11_file env (c11_file req)")
    case (Inl e')
    then show ?thesis by (simp add: post_try_c11_raises)
  next
    case (Inr res)
    obtain c ce where res: "res = (c, ce)" by (cases res)
    from assms Inr obtain "parse_bw_file env (bw_file req) = Inl e" by auto
    with Inr res show ?thesis by (simp add: post_try_bw_raises)
  qed
  have p: "projects (snd (post env req w)) = projects w"
    using t by (simp add: post_projects)
  have l: "filter (\<lambda>entry. fst entry = Info) (logger (snd (post env req w)))
             = filter (\<lambda>entry. fst entry = Info) (logger w)"
  proof (cases "upload_allowed env req w \<and> permitted env req")
    case False
    then show ?thesis using post_denied_fields [of env req w] by auto
  next
    case True
    show ?thesis
    proof (cases "form_is_valid req")
      case False
      with True show ?thesis by (simp add: post_invalid_form)
    next
      case v: True
      with True t show ?thesis
        by (simp add: post_attempt post_except_def split: option.splits exn.splits)
    qed
  qed
  from p l show ?thesis by simp
qed

theorem parse_failure_leaves_store_witness:
  "parse_c11_file example_env (c11_file wrong_file_request) = Inl WrongExcelFileException
   \<and> projects (snd (post example_env wrong_file_request example_world)) = projects example_world
   \<and> map order_number (projects (snd (post example_env wrong_file_request example_world))) = [101, 102, 103]"
proof -
  have h: "parse_c11_file example_env (c11_file wrong_file_request) = Inl WrongExcelFileException"
    by (simp add: example_env_def wrong_file_request_def)
  then have "parse_c11_file example_env (c11_file wrong_file_request) = Inl WrongExcelFileException
             \<or> parse_bw_file example_env (bw_file wrong_file_request) = Inl WrongExcelFileException"
    by (rule disjI1)
  from parse_failure_leaves_store [OF this, of example_world] h show ?thesis
    by (simp add: example_world_def)
qed

section \<open>The stored content\<close>

text \<open>
  C10. When both files are parsed, the \<open>file_content\<close> of the \<open>Upload\<close> row that \<open>post\<close>
  stores is the JSON object of lines 98 to 100, in which the key \<open>c11_data\<close> holds the
  strings of the BW records and the key \<open>bw_data\<close> the strings of the C11 records: the
  labels are swapped. \<open>json.loads\<close> reads exactly that back.
\<close>

theorem file_content_labels_swapped:
  assumes "parse_c11_file env (c11_file req) = Inr (c11_data, c11_err)"
    and "parse_bw_file env (bw_file req) = Inr (bw_data, bw_err)"
    and "uploads (snd (post env req w)) = uploads w @ [r]"
  shows "file_content r = make_file_content (map (bw_str env) bw_data) (map (c11_str env) c11_data)
         \<and> json_loads (file_content r) =
             Inr [(''c11_data'', map (bw_str env) bw_data), (''bw_data'', map (c11_str env) c11_data)]"
proof -
  have "r = new_upload req (fst (snd (post_try env req w)))"
    using assms(3) by (simp add: post_uploads split: if_splits)
  then have "file_content r = file_content_var (fst (snd (post_try env req w)))"
    by (simp add: new_upload_def)
  then have "file_content r = make_file_content (map (bw_str env) bw_data) (map (c11_str env) c11_data)"
    by (simp add: post_try_file_content [OF assms(1,2)])
  then show ?thesis by (simp add: json_loads_file_content)
qed

theorem file_content_labels_swapped_witness:
  "json_loads (file_content (last (uploads (snd (post example_env example_request example_world))))) =
     Inr [(''c11_data'', [''{order_number:104,hours:12}'']),
          (''bw_data'', [''{order_number:101,customer:ACME}''])]"
proof -
  have c11: "parse_c11_file example_env (c11_file example_request)
               = Inr ([''{order_number:101,customer:ACME}''], [])"
    by (simp add: example_env_def example_request_def)
  have bw: "parse_bw_file example_env (bw_file example_request)
              = Inr ([''{order_number:104,hours:12}''], [''row 3''])"
    by (simp add: example_env_def example_request_def)
  define r where "r = last (uploads (snd (post example_env example_request example_world)))"
  have e: "uploads example_world = []"
    by (simp add: example_world_def)
  have u: "uploads (snd (post example_env example_request example_world)) = uploads example_world @ [r]"
    unfolding r_def by (simp add: example_post e)
  have s: "bw_str example_env = (\<lambda>r. r)" "c11_str example_env = (\<lambda>r. r)"
    by (simp_all add: example_env_def)
  show ?thesis
    using file_content_labels_swapped [OF c11 bw u, THEN conjunct2] unfolding r_def by (simp add: s)
qed

section \<open>The cadence gate, proved\<close>

lemma order_by_timestamp_desc_Nil: "order_by_timestamp_desc us = [] \<longleftrightarrow> us = []"
proof -
  have "length (order_by_timestamp_desc us) = length us"
    by (simp add: order_by_timestamp_desc_def)
  then show ?thesis by (metis length_0_conv)
qed

lemma order_by_timestamp_desc_head:
  assumes "order_by_timestamp_desc us = u # rest"
  shows "timestamp u = Max (timestamp ` set us)"
proof (rule Max_eqI [symmetric])
  show "finite (timestamp ` set us)" by simp
next
  have s: "set (u # rest) = set us"
    using assms [symmetric] by (simp add: order_by_timestamp_desc_def)
  then show "timestamp u \<in> timestamp ` set us" by auto
next
  fix y assume "y \<in> timestamp ` set us"
  then obtain v where v: "v \<in> set us" "y = timestamp v" by auto
  have s: "set (u # rest) = set us"
    using assms [symmetric] by (simp add: order_by_timestamp_desc_def)
  have "sorted (map (\<lambda>u. - timestamp u) (u # rest))"
    using assms [symmetric] by (simp add: order_by_timestamp_desc_def)
  then have "\<forall>x \<in> set rest. - timestamp u \<le> - timestamp x" by simp
  with v s show "y \<le> timestamp u" by auto
qed

lemma days_to_next_upload_eq:
  "days_to_next_upload env req w =
     (if is_staff (user_of req) \<or> uploads w = [] then Inr 0
      else days_remaining (Max (timestamp ` set (uploads w))) (UPLOAD_ALLOWED_AFTER_DAYS env)
             (utc_now req))"
proof (cases "order_by_timestamp_desc (uploads w)")
  case Nil
  then have "uploads w = []" by (simp add: order_by_timestamp_desc_Nil)
  with Nil show ?thesis by (simp add: days_to_next_upload_def)
next
  case (Cons u rest)
  then have ne: "uploads w \<noteq> []" using order_by_timestamp_desc_Nil [of "uploads w"] by auto
  from Cons have "timestamp u = Max (timestamp ` set (uploads w))"
    by (rule order_by_timestamp_desc_head)
  with Cons ne show ?thesis by (simp add: days_to_next_upload_def)
qed

lemma days_remaining_eq:
  "days_remaining last_upload_timestamp n t =
     (if \<bar>n\<bar> > 999999999 then
        Inl (OverflowError (''days='' @ str_int n @ ''; must have magnitude <= 999999999''))
      else if last_upload_timestamp + n * 86400000000 < - 62135596800000000
              \<or> 253402300799999999 < last_upload_timestamp + n * 86400000000 then
        Inl (OverflowError ''date value out of range'')
      else Inr (((last_upload_timestamp + n * 86400000000) - (t - t mod 86400000000))
                  div 86400000000))"
  by (simp add: days_remaining_def timedelta_of_days_def datetime_add_def datetime_min_def
      datetime_max_def timedelta_days_def today_at_midnight_def day_us_def)

lemma three_days_ago:
  fixes last_upload_timestamp t :: int
  assumes "last_upload_timestamp div 86400000000 = t div 86400000000 - 3"
  shows "((last_upload_timestamp + 7 * 86400000000) - (t - t mod 86400000000)) div 86400000000 = 4"
proof -
  define d :: int where "d = 86400000000"
  have dpos: "0 < d" by (simp add: d_def)
  have m: "t - t mod d = (t div d) * d"
    by (simp add: minus_mod_eq_div_mult)
  have l: "last_upload_timestamp = (t div d - 3) * d + last_upload_timestamp mod d"
    using assms div_mult_mod_eq [of last_upload_timestamp d] by (simp add: d_def)
  have "(last_upload_timestamp + 7 * d) - (t - t mod d) = last_upload_timestamp mod d + 4 * d"
    unfolding m by (subst l) (simp add: algebra_simps)
  moreover have "(last_upload_timestamp mod d + 4 * d) div d = 4"
    using dpos by simp
  ultimately show ?thesis by (simp add: d_def)
qed

lemma str_int_4: "str_int 4 = ''4''"
  by code_simp

text \<open>
  C6. The gate lets a staff user through unconditionally. Any other user is let through
  exactly when there is no earlier upload or the days remaining are computed and at most
  0, where the days remaining are the \<open>days\<close> of (timestamp of the latest upload +
  cool-down) minus today's midnight in UTC; they are not computed, and the gate raises
  OverflowError, when the cool-down exceeds 999999999 days or its end is not a date of
  the years 1 to 9999. A user who is refused is told the days remaining. With a cool-down
  of 7 days and the latest upload on the third day before today, a user who is not staff
  is refused and \<open>days_to_next_upload\<close> is 4.
\<close>

theorem cadence_gate:
  "(let last_upload_timestamp = Max (timestamp ` set (uploads w));
        cooldown_days = UPLOAD_ALLOWED_AFTER_DAYS env;
        cooldown_end = last_upload_timestamp + cooldown_days * 86400000000;
        today_at_midnight_utc = utc_now req - utc_now req mod 86400000000;
        computed = (\<bar>cooldown_days\<bar> \<le> 999999999 \<and> - 62135596800000000 \<le> cooldown_end
                      \<and> cooldown_end \<le> 253402300799999999);
        days = (cooldown_end - today_at_midnight_utc) div 86400000000
    in (upload_allowed env req w \<longleftrightarrow>
          is_staff (user_of req) \<or> uploads w = [] \<or> (computed \<and> days \<le> 0))
       \<and> ((\<exists>e. check_upload_allow env req w = Inl e) \<longleftrightarrow>
             \<not> is_staff (user_of req) \<and> uploads w \<noteq> [] \<and> \<not> computed)
       \<and> (\<not> is_staff (user_of req) \<and> uploads w \<noteq> [] \<and> computed \<and> 0 < days \<longrightarrow>
             days_to_next_upload env req w = Inr days \<and>
             check_upload_allow env req w =
               Inr (False,
                    add_message Warning
                      (''A file upload is not possible at this time. Next upload will be possible after ''
                         @ str_int days @ '' day/s'') w))
       \<and> (\<not> is_staff (user_of req) \<and> uploads w \<noteq> [] \<and> cooldown_days = 7 \<and> computed
            \<and> last_upload_timestamp div 86400000000 = utc_now req div 86400000000 - 3 \<longrightarrow>
             days = 4 \<and> days_to_next_upload env req w = Inr 4 \<and> \<not> upload_allowed env req w))"
proof -
  define last_upload_timestamp where "last_upload_timestamp = Max (timestamp ` set (uploads w))"
  define cooldown_days where "cooldown_days = UPLOAD_ALLOWED_AFTER_DAYS env"
  define cooldown_end where "cooldown_end = last_upload_timestamp + cooldown_days * 86400000000"
  define computed where
    "computed \<longleftrightarrow> \<bar>cooldown_days\<bar> \<le> 999999999 \<and> - 62135596800000000 \<le> cooldown_end
                    \<and> cooldown_end \<le> 253402300799999999"
  define days where
    "days = (cooldown_end - (utc_now req - utc_now req mod 86400000000)) div 86400000000"
  have d: "days_to_next_upload env req w =
             (if is_staff (user_of req) \<or> uploads w = [] then Inr 0
              else if computed then Inr days
              else if \<bar>cooldown_days\<bar> > 999999999 then
                Inl (OverflowError (''days='' @ str_int cooldown_days
                       @ ''; must have magnitude <= 999999999''))
              else Inl (OverflowError ''date value out of range''))"
    by (auto simp: days_to_next_upload_eq days_remaining_eq computed_def days_def
        cooldown_end_def cooldown_days_def last_upload_timestamp_def)
  have allowed: "upload_allowed env req w \<longleftrightarrow>
          is_staff (user_of req) \<or> uploads w = [] \<or> (computed \<and> days \<le> 0)"
    by (auto simp: upload_allowed_def check_upload_allow_def d)
  have raises: "(\<exists>e. check_upload_allow env req w = Inl e) \<longleftrightarrow>
             \<not> is_staff (user_of req) \<and> uploads w \<noteq> [] \<and> \<not> computed"
    by (auto simp: check_upload_allow_def d)
  have refused: "\<not> is_staff (user_of req) \<and> uploads w \<noteq> [] \<and> computed \<and> 0 < days \<longrightarrow>
             days_to_next_upload env req w = Inr days \<and>
             check_upload_allow env req w =
               Inr (False,
                    add_message Warning
                      (''A file upload is not possible at this time. Next upload will be possible after ''
                         @ str_int days @ '' day/s'') w)"
    by (auto simp: check_upload_allow_def d)
  have example: "\<not> is_staff (user_of req) \<and> uploads w \<noteq> [] \<and> cooldown_days = 7 \<and> computed
            \<and> last_upload_timestamp div 86400000000 = utc_now req div 86400000000 - 3 \<longrightarrow>
             days = 4 \<and> days_to_next_upload env req w = Inr 4 \<and> \<not> upload_allowed env req w"
  proof (intro impI)
    assume h: "\<not> is_staff (user_of req) \<and> uploads w \<noteq> [] \<and> cooldown_days = 7 \<and> computed
            \<and> last_upload_timestamp div 86400000000 = utc_now req div 86400000000 - 3"
    then have "days = 4"
      using three_days_ago [of last_upload_timestamp "utc_now req"]
      by (simp add: days_def cooldown_end_def)
    with h show "days = 4 \<and> days_to_next_upload env req w = Inr 4 \<and> \<not> upload_allowed env req w"
      by (simp add: d allowed)
  qed
  from allowed raises refused example show ?thesis
    unfolding Let_def computed_def days_def cooldown_end_def cooldown_days_def
      last_upload_timestamp_def by blast
qed

theorem cadence_gate_witness:
  "days_to_next_upload example_env afternoon_request recent_upload_world = Inr 4
   \<and> \<not> upload_allowed example_env afternoon_request recent_upload_world
   \<and> check_upload_allow example_env afternoon_request recent_upload_world =
       Inr (False,
            add_message Warning
              ''A file upload is not possible at this time. Next upload will be possible after 4 day/s''
              recent_upload_world)"
proof -
  have h: "\<not> is_staff (user_of afternoon_request)" "uploads recent_upload_world \<noteq> []"
    "UPLOAD_ALLOWED_AFTER_DAYS example_env = 7"
    "Max (timestamp ` set (uploads recent_upload_world)) = 1472400000000"
    "utc_now afternoon_request = 1782000000000"
    by (simp_all add: afternoon_request_def example_request_def example_user_def
        recent_upload_world_def example_env_def day_us_def)
  show ?thesis
    using cadence_gate [of recent_upload_world example_env afternoon_request]
    by (simp add: h Let_def str_int_4)
qed

section \<open>Deletion is not atomic\<close>

text \<open>
  C3, as the code has it. The view opens no transaction. For an attempt that passed the
  gate with a valid form and whose parsers and \<open>build_objects\<close> returned: when every row of
  the stored content yields an order number, the stale projects are deleted one after
  the other, in the order of the query, up to the first call of \<open>delete\<close> that raises, so
  the stale projects before that call are removed, that project and the ones after it
  stay, and all stale projects are removed when no call raises; when a row yields no
  order number (lines 111 and 112 raise) no project is removed. In each of these cases
  the \<open>Upload\<close> row of the attempt is marked successful.
\<close>

theorem deletion_stops_at_first_failure:
  assumes "upload_allowed env req w" and "permitted env req" and "form_is_valid req"
    and c11: "parse_c11_file env (c11_file req) = Inr (c, ce)"
    and bw: "parse_bw_file env (bw_file req) = Inr (b, be)"
    and build: "build_objects env c b (projects w) = (Inr st, ps)"
  shows "(\<forall>ns. map order_number_of_row (map (bw_str env) b @ map (c11_str env) c) = map Inr ns \<longrightarrow>
            projects (snd (post env req w)) =
              filter (\<lambda>q. pk q \<notin> pk ` set (takeWhile (\<lambda>p. delete_raises env p = None)
                                             (exclude_order_number_in ns ps))) ps
            \<and> ((\<forall>p \<in> set (exclude_order_number_in ns ps). delete_raises env p = None) \<longrightarrow>
                 projects (snd (post env req w)) =
                   filter (\<lambda>q. pk q \<notin> pk ` set (exclude_order_number_in ns ps)) ps))
         \<and> ((\<exists>row \<in> set (map (bw_str env) b @ map (c11_str env) c).
                \<exists>e. order_number_of_row row = Inl e) \<longrightarrow>
               projects (snd (post env req w)) = ps)
         \<and> (\<forall>r. uploads (snd (post env req w)) = uploads w @ [r] \<longrightarrow> read_successful r)"
proof -
  let ?rows = "map (bw_str env) b @ map (c11_str env) c"
  have pp: "projects (snd (post env req w)) = projects (snd (snd (post_try env req w)))"
    using assms(1-3) by (simp add: post_projects)
  have derived: "\<forall>ns. map order_number_of_row ?rows = map Inr ns \<longrightarrow>
            projects (snd (post env req w)) =
              filter (\<lambda>q. pk q \<notin> pk ` set (takeWhile (\<lambda>p. delete_raises env p = None)
                                             (exclude_order_number_in ns ps))) ps
            \<and> ((\<forall>p \<in> set (exclude_order_number_in ns ps). delete_raises env p = None) \<longrightarrow>
                 projects (snd (post env req w)) =
                   filter (\<lambda>q. pk q \<notin> pk ` set (exclude_order_number_in ns ps)) ps)"
  proof (intro allI impI)
    fix ns assume numbers: "map order_number_of_row ?rows = map Inr ns"
    let ?stale = "exclude_order_number_in ns ps"
    have rl: "rows_loop [] ?rows = Inr ns"
      using numbers by (simp add: rows_loop_Inr)
    have p: "projects (snd (post env req w)) =
        filter (\<lambda>q. pk q \<notin> pk ` set (takeWhile (\<lambda>p. delete_raises env p = None) ?stale)) ps"
      unfolding pp
      by (simp add: post_try_merged [OF c11 bw build] delete_extra_projects_file_content rl
          delete_loop_projects)
    have a: "(\<forall>p \<in> set ?stale. delete_raises env p = None) \<longrightarrow>
               projects (snd (post env req w)) = filter (\<lambda>q. pk q \<notin> pk ` set ?stale) ps"
    proof
      assume "\<forall>p \<in> set ?stale. delete_raises env p = None"
      then have "takeWhile (\<lambda>p. delete_raises env p = None) ?stale = ?stale"
        by (simp add: takeWhile_eq_all_conv)
      with p show "projects (snd (post env req w)) = filter (\<lambda>q. pk q \<notin> pk ` set ?stale) ps"
        by simp
    qed
    from p a show "projects (snd (post env req w)) =
              filter (\<lambda>q. pk q \<notin> pk ` set (takeWhile (\<lambda>p. delete_raises env p = None) ?stale)) ps
            \<and> ((\<forall>p \<in> set ?stale. delete_raises env p = None) \<longrightarrow>
                 projects (snd (post env req w)) = filter (\<lambda>q. pk q \<notin> pk ` set ?stale) ps)"
      by blast
  qed
  have underived: "(\<exists>row \<in> set ?rows. \<exists>e. order_number_of_row row = Inl e) \<longrightarrow>
               projects (snd (post env req w)) = ps"
  proof
    assume "\<exists>row \<in> set ?rows. \<exists>e. order_number_of_row row = Inl e"
    then obtain e where "rows_loop [] ?rows = Inl e"
      by (rule rows_loop_Inl_of_row)
    then show "projects (snd (post env req w)) = ps"
      unfolding pp
      by (simp add: post_try_merged [OF c11 bw build] delete_extra_projects_file_content)
  qed
  have m: "merged env req w"
    using c11 bw build by (simp add: merged_def)
  have f: "\<forall>r. uploads (snd (post env req w)) = uploads w @ [r] \<longrightarrow> read_successful r"
  proof (intro allI impI)
    fix r assume "uploads (snd (post env req w)) = uploads w @ [r]"
    then have "r = new_upload req (fst (snd (post_try env req w)))"
      by (simp add: post_uploads split: if_splits)
    with m show "read_successful r"
      by (simp add: new_upload_def post_try_upload_successful)
  qed
  from derived underived f show ?thesis by blast
qed

theorem deletion_stops_at_first_failure_witness:
  "projects (snd (post protected_env example_request example_world)) =
     [\<lparr>pk = 11, order_number = 101\<rparr>, \<lparr>pk = 13, order_number = 103\<rparr>, \<lparr>pk = 14, order_number = 104\<rparr>]"
proof -
  have c11: "parse_c11_file protected_env (c11_file example_request)
               = Inr ([''{order_number:101,customer:ACME}''], [])"
    by (simp add: protected_env_def example_env_def example_request_def)
  have bw: "parse_bw_file protected_env (bw_file example_request)
              = Inr ([''{order_number:104,hours:12}''], [''row 3''])"
    by (simp add: protected_env_def example_env_def example_request_def)
  have build: "build_objects protected_env [''{order_number:101,customer:ACME}'']
                 [''{order_number:104,hours:12}''] (projects example_world)
               = (Inr 2, [\<lparr>pk = 11, order_number = 101\<rparr>, \<lparr>pk = 12, order_number = 102\<rparr>,
                          \<lparr>pk = 13, order_number = 103\<rparr>, \<lparr>pk = 14, order_number = 104\<rparr>])"
    by (simp add: protected_env_def example_env_def example_world_def)
  have numbers: "map order_number_of_row
                   (map (bw_str protected_env) [''{order_number:104,hours:12}'']
                      @ map (c11_str protected_env) [''{order_number:101,customer:ACME}''])
                 = map Inr [104, 101]"
    by (simp add: protected_env_def example_env_def example_rows)
  have valid: "form_is_valid example_request"
    by (simp add: example_request_def)
  have d: "delete_raises protected_env =
             (\<lambda>p. if order_number p = 103 then Some (Exception ''protected'') else None)"
    by (simp add: protected_env_def)
  show ?thesis
    using deletion_stops_at_first_failure [OF protected_allowed protected_permitted valid c11 bw
        build, THEN conjunct1, THEN spec, of "[104, 101]"] numbers
    by (simp add: protected_stale d)
qed

text \<open>The claim as stated fails: 102 and 103 are stale, \<open>delete\<close> raises for 103, and
  after \<open>post\<close> 102 is gone and 103 is still there.\<close>

theorem atomic_deletion_counterexample:
  "exclude_order_number_in [104, 101]
     [\<lparr>pk = 11, order_number = 101\<rparr>, \<lparr>pk = 12, order_number = 102\<rparr>,
      \<lparr>pk = 13, order_number = 103\<rparr>, \<lparr>pk = 14, order_number = 104\<rparr>]
     = [\<lparr>pk = 12, order_number = 102\<rparr>, \<lparr>pk = 13, order_number = 103\<rparr>]
   \<and> projects (snd (post protected_env example_request example_world))
     = [\<lparr>pk = 11, order_number = 101\<rparr>, \<lparr>pk = 13, order_number = 103\<rparr>,
        \<lparr>pk = 14, order_number = 104\<rparr>]"
  by (simp add: protected_stale protected_post)

section \<open>The audit row\<close>

text \<open>
  C4, as the code has it. \<open>post\<close> stores exactly one new \<open>Upload\<close> row when the request
  passes the cadence gate and the permission check, the form is valid and \<open>save\<close> does not
  raise, whatever happens to parsing, merging and deletion; otherwise it stores none
  (denied by cadence or permission, or invalid form). The rows already there stay.
\<close>

theorem one_upload_per_attempt:
  "length (uploads (snd (post env req w))) =
     length (uploads w) +
       (if upload_allowed env req w \<and> permitted env req \<and> form_is_valid req
           \<and> save_raises env = None
        then 1 else 0)
   \<and> take (length (uploads w)) (uploads (snd (post env req w))) = uploads w"
  by (simp add: post_uploads)

theorem one_upload_per_attempt_witness:
  "fst (post_try protected_env example_request example_world) = Some (Exception ''protected'')
   \<and> length (uploads (snd (post protected_env example_request example_world))) = 1"
proof -
  have "form_is_valid example_request \<and> save_raises protected_env = None
        \<and> length (uploads example_world) = 0"
    by (simp add: example_request_def protected_env_def example_env_def example_world_def)
  with one_upload_per_attempt [of protected_env example_request example_world]
    protected_allowed protected_permitted protected_post_try_raised
  show ?thesis by simp
qed

text \<open>The claim as stated fails: a POST whose form does not validate stores no row.\<close>

theorem one_upload_counterexample:
  "length (uploads (snd (post example_env invalid_form_request example_world)))
     = length (uploads example_world)"
  by (simp add: invalid_form_post)

text \<open>
  C5, as the code has it. The flag \<open>read_successful\<close> of the row that \<open>post\<close> stores is
  true exactly when both parsers and \<open>build_objects\<close> returned without raising; what the
  deletion of the stale projects does afterwards does not change it.
\<close>

theorem success_flag_is_merge_outcome:
  assumes "uploads (snd (post env req w)) = uploads w @ [r]"
  shows "read_successful r = merged env req w"
proof -
  have "r = new_upload req (fst (snd (post_try env req w)))"
    using assms by (simp add: post_uploads split: if_splits)
  then show ?thesis
    by (simp add: new_upload_def post_try_upload_successful)
qed

theorem success_flag_is_merge_outcome_witness:
  "read_successful (last (uploads (snd (post protected_env example_request example_world))))
   \<and> merged protected_env example_request example_world"
proof -
  define r where "r = last (uploads (snd (post protected_env example_request example_world)))"
  have e: "uploads example_world = []"
    by (simp add: example_world_def)
  have u: "uploads (snd (post protected_env example_request example_world)) = uploads example_world @ [r]"
    unfolding r_def by (simp add: protected_post e)
  have t: "read_successful r"
    unfolding r_def by (simp add: protected_post)
  from success_flag_is_merge_outcome [OF u] t show ?thesis
    unfolding r_def by simp
qed

text \<open>The claim as stated fails: the deletion of project 103 raises and the row is stored
  with \<open>read_successful = True\<close>.\<close>

theorem success_flag_counterexample:
  "fst (post_try protected_env example_request example_world) = Some (Exception ''protected'')
   \<and> map read_successful (uploads (snd (post protected_env example_request example_world))) = [True]"
  by (simp add: protected_post protected_post_try_raised)

section \<open>What the caller sees\<close>

lemma post_outcome:
  assumes "upload_allowed env req w" and "permitted env req" and "form_is_valid req"
    and save: "save_raises env = None"
    and ran: "post_try env req w = (raised, l, w2)"
    and caught: "\<forall>e. raised = Some e \<longrightarrow> is_Exception e"
  shows "fst (post env req w) =
           Inr (if merged env req w
                then Render_upload_statistics (statistics l) (bw_data_error l) (c11_data_error l)
                else Render_upload_errors new_form (bw_data_error l) (c11_data_error l))
         \<and> (merged env req w \<longrightarrow> (\<exists>st. statistics l = Some st))
         \<and> (raised = None \<longrightarrow> merged env req w)
         \<and> map fst (messages (snd (post env req w))) =
             map fst (messages w) @
               (case raised of
                  None \<Rightarrow> []
                | Some WrongExcelFileException \<Rightarrow> [Warning]
                | Some (OSError m) \<Rightarrow> [Warning]
                | Some e \<Rightarrow> [Error])"
proof -
  have us: "upload_successful l = merged env req w"
    using post_try_upload_successful [of env req w] ran by simp
  have st: "merged env req w \<longrightarrow> (\<exists>st. statistics l = Some st)"
    using post_try_statistics [of env req w] ran by simp
  have none: "raised = None \<longrightarrow> merged env req w"
    using ran by (auto simp: post_try_def merged_def Let_def split_beta
        split: sum.splits prod.splits)
  have pe: "fst (post_except req raised w2) = None"
    using caught by (rule post_except_caught)
  have resp: "fst (post env req w) =
           Inr (if merged env req w
                then Render_upload_statistics (statistics l) (bw_data_error l) (c11_data_error l)
                else Render_upload_errors new_form (bw_data_error l) (c11_data_error l))"
    using assms(1-3) by (simp add: post_attempt ran post_finally_def save pe us Let_def)
  have w2: "messages w2 = messages w"
    using post_try_messages [of env req w] ran by simp
  have msgs: "map fst (messages (snd (post env req w))) =
             map fst (messages w) @
               (case raised of
                  None \<Rightarrow> []
                | Some WrongExcelFileException \<Rightarrow> [Warning]
                | Some (OSError m) \<Rightarrow> [Warning]
                | Some e \<Rightarrow> [Error])"
    using assms(1-3) by (simp add: post_attempt ran post_except_levels [OF caught] w2)
  from resp st none msgs show ?thesis by blast
qed

text \<open>
  C8, as the code has it, for a POST that passes the gate with a valid form and whose
  \<open>Upload\<close> row is saved. When both parsers and \<open>build_objects\<close> return, the response is
  the statistics page with the Statistics object that \<open>build_objects\<close> returned and the
  two error reports that the parsers returned, also when reading the order numbers or
  deleting a stale project raises an \<open>Exception\<close> afterwards; then one message is added.
  When a parser or \<open>build_objects\<close> raises an \<open>Exception\<close>, the response is the upload page
  with the form and the two error reports as far as the parsers returned them (empty for
  a parser that did not return), and one message is added. The message is a warning when
  the exception is \<open>WrongExcelFileException\<close> or \<open>OSError\<close>, wherever it was raised, and an
  error for any other exception; no message is added when nothing raises.
\<close>

theorem output_to_caller:
  assumes "upload_allowed env req w" and "permitted env req" and "form_is_valid req"
    and save: "save_raises env = None"
  shows
    "(let level = (\<lambda>e. case e of WrongExcelFileException \<Rightarrow> Warning | OSError m \<Rightarrow> Warning
                         | _ \<Rightarrow> Error);
          levels = map fst (messages (snd (post env req w)))
      in (\<forall>e. parse_c11_file env (c11_file req) = Inl e \<and> is_Exception e \<longrightarrow>
             fst (post env req w) = Inr (Render_upload_errors new_form [] [])
             \<and> levels = map fst (messages w) @ [level e])
         \<and> (\<forall>c ce e. parse_c11_file env (c11_file req) = Inr (c, ce)
                \<and> parse_bw_file env (bw_file req) = Inl e \<and> is_Exception e \<longrightarrow>
             fst (post env req w) = Inr (Render_upload_errors new_form [] ce)
             \<and> levels = map fst (messages w) @ [level e])
         \<and> (\<forall>c ce b be e ps. parse_c11_file env (c11_file req) = Inr (c, ce)
                \<and> parse_bw_file env (bw_file req) = Inr (b, be)
                \<and> build_objects env c b (projects w) = (Inl e, ps) \<and> is_Exception e \<longrightarrow>
             fst (post env req w) = Inr (Render_upload_errors new_form be ce)
             \<and> levels = map fst (messages w) @ [level e])
         \<and> (\<forall>c ce b be st ps. parse_c11_file env (c11_file req) = Inr (c, ce)
                \<and> parse_bw_file env (bw_file req) = Inr (b, be)
                \<and> build_objects env c b (projects w) = (Inr st, ps) \<longrightarrow>
             (\<forall>ns. map order_number_of_row (map (bw_str env) b @ map (c11_str env) c) = map Inr ns
                   \<and> (\<forall>p \<in> set (exclude_order_number_in ns ps). delete_raises env p = None) \<longrightarrow>
                fst (post env req w) = Inr (Render_upload_statistics (Some st) be ce)
                \<and> messages (snd (post env req w)) = messages w)
             \<and> (\<forall>ns p rest e.
                   map order_number_of_row (map (bw_str env) b @ map (c11_str env) c) = map Inr ns
                   \<and> dropWhile (\<lambda>p. delete_raises env p = None) (exclude_order_number_in ns ps)
                       = p # rest
                   \<and> delete_raises env p = Some e \<and> is_Exception e \<longrightarrow>
                fst (post env req w) = Inr (Render_upload_statistics (Some st) be ce)
                \<and> levels = map fst (messages w) @ [level e])
             \<and> ((\<exists>row \<in> set (map (bw_str env) b @ map (c11_str env) c).
                    \<exists>e. order_number_of_row row = Inl e) \<longrightarrow>
                fst (post env req w) = Inr (Render_upload_statistics (Some st) be ce)
                \<and> levels = map fst (messages w) @ [Error])))"
proof -
  define level where
    "level = (\<lambda>e. case e of WrongExcelFileException \<Rightarrow> Warning | OSError m \<Rightarrow> Warning | _ \<Rightarrow> Error)"
  define levels where "levels = map fst (messages (snd (post env req w)))"
  have lv: "(case Some e of None \<Rightarrow> [] | Some WrongExcelFileException \<Rightarrow> [Warning]
              | Some (OSError m) \<Rightarrow> [Warning] | Some e \<Rightarrow> [Error]) = [level e]" for e
    by (cases e) (simp_all add: level_def)
  have outcome: "fst (post env req w) =
           Inr (if merged env req w
                then Render_upload_statistics (statistics l) (bw_data_error l) (c11_data_error l)
                else Render_upload_errors new_form (bw_data_error l) (c11_data_error l))
         \<and> levels = map fst (messages w) @ (case raised of None \<Rightarrow> [] | Some e \<Rightarrow> [level e])"
    if "post_try env req w = (raised, l, w2)" and "\<forall>e. raised = Some e \<longrightarrow> is_Exception e"
    for raised l w2
    using post_outcome [OF assms(1-3) save that] lv
    by (cases raised) (simp_all add: levels_def)
  have A: "\<forall>e. parse_c11_file env (c11_file req) = Inl e \<and> is_Exception e \<longrightarrow>
             fst (post env req w) = Inr (Render_upload_errors new_form [] [])
             \<and> levels = map fst (messages w) @ [level e]"
  proof (intro allI impI)
    fix e assume h: "parse_c11_file env (c11_file req) = Inl e \<and> is_Exception e"
    then have t: "post_try env req w = (Some e, initial_locals, w)"
      by (simp add: post_try_c11_raises)
    have n: "\<not> merged env req w" using h by (simp add: merged_def)
    from outcome [OF t] h n
    show "fst (post env req w) = Inr (Render_upload_errors new_form [] [])
             \<and> levels = map fst (messages w) @ [level e]"
      by (simp add: initial_locals_def)
  qed
  have B: "\<forall>c ce e. parse_c11_file env (c11_file req) = Inr (c, ce)
                \<and> parse_bw_file env (bw_file req) = Inl e \<and> is_Exception e \<longrightarrow>
             fst (post env req w) = Inr (Render_upload_errors new_form [] ce)
             \<and> levels = map fst (messages w) @ [level e]"
  proof (intro allI impI)
    fix c ce e
    assume h: "parse_c11_file env (c11_file req) = Inr (c, ce)
                \<and> parse_bw_file env (bw_file req) = Inl e \<and> is_Exception e"
    then have t: "post_try env req w = (Some e, initial_locals\<lparr>c11_data_error := ce\<rparr>, w)"
      by (simp add: post_try_bw_raises)
    have n: "\<not> merged env req w" using h by (simp add: merged_def)
    from outcome [OF t] h n
    show "fst (post env req w) = Inr (Render_upload_errors new_form [] ce)
             \<and> levels = map fst (messages w) @ [level e]"
      by (simp add: initial_locals_def)
  qed
  have C: "\<forall>c ce b be e ps. parse_c11_file env (c11_file req) = Inr (c, ce)
                \<and> parse_bw_file env (bw_file req) = Inr (b, be)
                \<and> build_objects env c b (projects w) = (Inl e, ps) \<and> is_Exception e \<longrightarrow>
             fst (post env req w) = Inr (Render_upload_errors new_form be ce)
             \<and> levels = map fst (messages w) @ [level e]"
  proof (intro allI impI)
    fix c ce b be e ps
    assume h: "parse_c11_file env (c11_file req) = Inr (c, ce)
                \<and> parse_bw_file env (bw_file req) = Inr (b, be)
                \<and> build_objects env c b (projects w) = (Inl e, ps) \<and> is_Exception e"
    then have t: "post_try env req w = (Some e, parsed_locals env c ce b be, w\<lparr>projects := ps\<rparr>)"
      by (simp add: post_try_build_raises)
    have n: "\<not> merged env req w" using h by (simp add: merged_def)
    from outcome [OF t] h n
    show "fst (post env req w) = Inr (Render_upload_errors new_form be ce)
             \<and> levels = map fst (messages w) @ [level e]"
      by (simp add: parsed_locals_def)
  qed
  have D: "\<forall>c ce b be st ps. parse_c11_file env (c11_file req) = Inr (c, ce)
                \<and> parse_bw_file env (bw_file req) = Inr (b, be)
                \<and> build_objects env c b (projects w) = (Inr st, ps) \<longrightarrow>
             (\<forall>ns. map order_number_of_row (map (bw_str env) b @ map (c11_str env) c) = map Inr ns
                   \<and> (\<forall>p \<in> set (exclude_order_number_in ns ps). delete_raises env p = None) \<longrightarrow>
                fst (post env req w) = Inr (Render_upload_statistics (Some st) be ce)
                \<and> messages (snd (post env req w)) = messages w)
             \<and> (\<forall>ns p rest e.
                   map order_number_of_row (map (bw_str env) b @ map (c11_str env) c) = map Inr ns
                   \<and> dropWhile (\<lambda>p. delete_raises env p = None) (exclude_order_number_in ns ps)
                       = p # rest
                   \<and> delete_raises env p = Some e \<and> is_Exception e \<longrightarrow>
                fst (post env req w) = Inr (Render_upload_statistics (Some st) be ce)
                \<and> levels = map fst (messages w) @ [level e])
             \<and> ((\<exists>row \<in> set (map (bw_str env) b @ map (c11_str env) c).
                    \<exists>e. order_number_of_row row = Inl e) \<longrightarrow>
                fst (post env req w) = Inr (Render_upload_statistics (Some st) be ce)
                \<and> levels = map fst (messages w) @ [Error])"
  proof (intro allI impI)
    fix c ce b be st ps
    assume h: "parse_c11_file env (c11_file req) = Inr (c, ce)
                \<and> parse_bw_file env (bw_file req) = Inr (b, be)
                \<and> build_objects env c b (projects w) = (Inr st, ps)"
    let ?rows = "map (bw_str env) b @ map (c11_str env) c"
    let ?content = "make_file_content (map (bw_str env) b) (map (c11_str env) c)"
    let ?l = "(parsed_locals env c ce b be)\<lparr>statistics := Some st, upload_successful := True\<rparr>"
    have t: "post_try env req w =
               (fst (delete_extra_projects env ?content (w\<lparr>projects := ps\<rparr>)), ?l,
                snd (delete_extra_projects env ?content (w\<lparr>projects := ps\<rparr>)))"
      using h by (simp add: post_try_merged)
    have mg: "merged env req w" using h by (simp add: merged_def)
    have page: "fst (post env req w) = Inr (Render_upload_statistics (Some st) be ce)
                \<and> levels = map fst (messages w) @ (case raised of None \<Rightarrow> [] | Some e \<Rightarrow> [level e])"
      if "fst (delete_extra_projects env ?content (w\<lparr>projects := ps\<rparr>)) = raised"
        and "\<forall>e. raised = Some e \<longrightarrow> is_Exception e" for raised
      using outcome [of raised ?l "snd (delete_extra_projects env ?content (w\<lparr>projects := ps\<rparr>))"]
        t that mg by (simp add: parsed_locals_def)
    have D1: "\<forall>ns. map order_number_of_row ?rows = map Inr ns
                   \<and> (\<forall>p \<in> set (exclude_order_number_in ns ps). delete_raises env p = None) \<longrightarrow>
                fst (post env req w) = Inr (Render_upload_statistics (Some st) be ce)
                \<and> messages (snd (post env req w)) = messages w"
    proof (intro allI impI)
      fix ns
      assume n: "map order_number_of_row ?rows = map Inr ns
                   \<and> (\<forall>p \<in> set (exclude_order_number_in ns ps). delete_raises env p = None)"
      then have rl: "rows_loop [] ?rows = Inr ns" by (simp add: rows_loop_Inr)
      from n have dw: "dropWhile (\<lambda>p. delete_raises env p = None) (exclude_order_number_in ns ps) = []"
        by simp
      have r: "fst (delete_extra_projects env ?content (w\<lparr>projects := ps\<rparr>)) = None"
        by (simp add: delete_extra_projects_file_content rl delete_loop_raised dw)
      have pt: "post_try env req w =
               (None, ?l, snd (delete_extra_projects env ?content (w\<lparr>projects := ps\<rparr>)))"
        using t r by simp
      have msg: "messages (snd (post env req w)) = messages w"
        using assms(1-3) post_try_messages [of env req w]
        by (simp add: post_attempt pt post_except_def)
      from page [OF r] msg
      show "fst (post env req w) = Inr (Render_upload_statistics (Some st) be ce)
                \<and> messages (snd (post env req w)) = messages w"
        by simp
    qed
    have D2: "\<forall>ns p rest e.
                   map order_number_of_row ?rows = map Inr ns
                   \<and> dropWhile (\<lambda>p. delete_raises env p = None) (exclude_order_number_in ns ps)
                       = p # rest
                   \<and> delete_raises env p = Some e \<and> is_Exception e \<longrightarrow>
                fst (post env req w) = Inr (Render_upload_statistics (Some st) be ce)
                \<and> levels = map fst (messages w) @ [level e]"
    proof (intro allI impI)
      fix ns p rest e
      assume n: "map order_number_of_row ?rows = map Inr ns
                   \<and> dropWhile (\<lambda>p. delete_raises env p = None) (exclude_order_number_in ns ps)
                       = p # rest
                   \<and> delete_raises env p = Some e \<and> is_Exception e"
      then have rl: "rows_loop [] ?rows = Inr ns" by (simp add: rows_loop_Inr)
      have r: "fst (delete_extra_projects env ?content (w\<lparr>projects := ps\<rparr>)) = Some e"
        using n by (simp add: delete_extra_projects_file_content rl delete_loop_raised)
      from page [OF r] n
      show "fst (post env req w) = Inr (Render_upload_statistics (Some st) be ce)
                \<and> levels = map fst (messages w) @ [level e]"
        by simp
    qed
    have D3: "(\<exists>row \<in> set ?rows. \<exists>e. order_number_of_row row = Inl e) \<longrightarrow>
                fst (post env req w) = Inr (Render_upload_statistics (Some st) be ce)
                \<and> levels = map fst (messages w) @ [Error]"
    proof
      assume "\<exists>row \<in> set ?rows. \<exists>e. order_number_of_row row = Inl e"
      then obtain e where rl: "rows_loop [] ?rows = Inl e"
        by (rule rows_loop_Inl_of_row)
      then obtain row where "order_number_of_row row = Inl e"
        using rows_loop_Inl by blast
      then have k: "(\<exists>m. e = IndexError m) \<or> (\<exists>m. e = ValueError m)"
        by (rule order_number_of_row_error)
      then have ex: "is_Exception e" and le: "level e = Error"
        by (auto simp: level_def)
      have r: "fst (delete_extra_projects env ?content (w\<lparr>projects := ps\<rparr>)) = Some e"
        by (simp add: delete_extra_projects_file_content rl)
      from page [OF r] ex le
      show "fst (post env req w) = Inr (Render_upload_statistics (Some st) be ce)
                \<and> levels = map fst (messages w) @ [Error]"
        by simp
    qed
    from D1 D2 D3
    show "(\<forall>ns. map order_number_of_row ?rows = map Inr ns
                   \<and> (\<forall>p \<in> set (exclude_order_number_in ns ps). delete_raises env p = None) \<longrightarrow>
                fst (post env req w) = Inr (Render_upload_statistics (Some st) be ce)
                \<and> messages (snd (post env req w)) = messages w)
             \<and> (\<forall>ns p rest e.
                   map order_number_of_row ?rows = map Inr ns
                   \<and> dropWhile (\<lambda>p. delete_raises env p = None) (exclude_order_number_in ns ps)
                       = p # rest
                   \<and> delete_raises env p = Some e \<and> is_Exception e \<longrightarrow>
                fst (post env req w) = Inr (Render_upload_statistics (Some st) be ce)
                \<and> levels = map fst (messages w) @ [level e])
             \<and> ((\<exists>row \<in> set ?rows. \<exists>e. order_number_of_row row = Inl e) \<longrightarrow>
                fst (post env req w) = Inr (Render_upload_statistics (Some st) be ce)
                \<and> levels = map fst (messages w) @ [Error])"
      by blast
  qed
  from A B C D show ?thesis
    unfolding Let_def level_def levels_def by blast
qed

theorem output_to_caller_witness:
  "fst (post example_env wrong_file_request example_world) = Inr (Render_upload_errors new_form [] [])
   \<and> map fst (messages (snd (post example_env wrong_file_request example_world))) = [Warning]
   \<and> fst (post disk_error_env example_request example_world)
       = Inr (Render_upload_statistics (Some 2) [''row 3''] [])
   \<and> map fst (messages (snd (post disk_error_env example_request example_world))) = [Warning]"
proof -
  have e: "messages example_world = []"
    by (simp add: example_world_def)
  have a: "upload_allowed example_env wrong_file_request example_world"
    by (simp add: upload_allowed_def check_upload_allow_def days_to_next_upload_def
        example_world_def order_by_timestamp_desc_def)
  have p: "permitted example_env wrong_file_request"
    by (simp add: permitted_def example_env_def wrong_file_request_def example_request_def
        example_user_def permitted_groups_def)
  have v: "form_is_valid wrong_file_request"
    by (simp add: wrong_file_request_def example_request_def)
  have s: "save_raises example_env = None"
    by (simp add: example_env_def)
  have h: "parse_c11_file example_env (c11_file wrong_file_request) = Inl WrongExcelFileException
           \<and> is_Exception WrongExcelFileException"
    by (simp add: example_env_def wrong_file_request_def)
  have first: "fst (post example_env wrong_file_request example_world)
                 = Inr (Render_upload_errors new_form [] [])
               \<and> map fst (messages (snd (post example_env wrong_file_request example_world)))
                 = [Warning]"
    using output_to_caller [OF a p v s, unfolded Let_def, THEN conjunct1, rule_format, OF h]
    by (simp add: e)
  have a2: "upload_allowed disk_error_env example_request example_world"
    by (simp add: upload_allowed_def check_upload_allow_def days_to_next_upload_def
        example_world_def order_by_timestamp_desc_def)
  have p2: "permitted disk_error_env example_request"
    by (simp add: permitted_def disk_error_env_def example_env_def example_request_def
        example_user_def permitted_groups_def)
  have v2: "form_is_valid example_request"
    by (simp add: example_request_def)
  have s2: "save_raises disk_error_env = None"
    by (simp add: disk_error_env_def example_env_def)
  have pb: "parse_c11_file disk_error_env (c11_file example_request)
               = Inr ([''{order_number:101,customer:ACME}''], [])
            \<and> parse_bw_file disk_error_env (bw_file example_request)
               = Inr ([''{order_number:104,hours:12}''], [''row 3''])
            \<and> build_objects disk_error_env [''{order_number:101,customer:ACME}'']
                 [''{order_number:104,hours:12}''] (projects example_world)
               = (Inr 2, [\<lparr>pk = 11, order_number = 101\<rparr>, \<lparr>pk = 12, order_number = 102\<rparr>,
                          \<lparr>pk = 13, order_number = 103\<rparr>, \<lparr>pk = 14, order_number = 104\<rparr>])"
    by (simp add: disk_error_env_def example_env_def example_request_def example_world_def)
  have d: "delete_raises disk_error_env =
             (\<lambda>p. if order_number p = 103 then Some (OSError ''disk'') else None)"
    by (simp add: disk_error_env_def)
  have del: "map order_number_of_row
                   (map (bw_str disk_error_env) [''{order_number:104,hours:12}'']
                      @ map (c11_str disk_error_env) [''{order_number:101,customer:ACME}''])
                 = map Inr [104, 101]
             \<and> dropWhile (\<lambda>p. delete_raises disk_error_env p = None)
                 (exclude_order_number_in [104, 101]
                    [\<lparr>pk = 11, order_number = 101\<rparr>, \<lparr>pk = 12, order_number = 102\<rparr>,
                     \<lparr>pk = 13, order_number = 103\<rparr>, \<lparr>pk = 14, order_number = 104\<rparr>])
                 = \<lparr>pk = 13, order_number = 103\<rparr> # []
             \<and> delete_raises disk_error_env \<lparr>pk = 13, order_number = 103\<rparr> = Some (OSError ''disk'')
             \<and> is_Exception (OSError ''disk'')"
    by (simp add: d protected_stale) (simp add: disk_error_env_def example_env_def example_rows)
  have second: "fst (post disk_error_env example_request example_world)
                  = Inr (Render_upload_statistics (Some 2) [''row 3''] [])
                \<and> map fst (messages (snd (post disk_error_env example_request example_world)))
                  = [Warning]"
    using output_to_caller [OF a2 p2 v2 s2, unfolded Let_def, THEN conjunct2, THEN conjunct2,
        THEN conjunct2, rule_format, OF pb, THEN conjunct2, THEN conjunct1, rule_format, OF del]
    by (simp add: e)
  from first second show ?thesis by simp
qed

text \<open>The claim as stated fails: the deletion of project 103 raises, a partial failure,
  and the caller gets the Statistics object with an error message, not a warning.\<close>

theorem output_counterexample:
  "fst (post_try protected_env example_request example_world) = Some (Exception ''protected'')
   \<and> fst (post protected_env example_request example_world)
       = Inr (Render_upload_statistics (Some 2) [''row 3''] [])
   \<and> map fst (messages (snd (post protected_env example_request example_world))) = [Error]"
  by (simp add: protected_post protected_post_try_raised)

section \<open>Permission denied\<close>

text \<open>
  C9. For a user who is neither superuser nor member of a permitted group, \<open>post\<close> does
  not start the reconciliation (the projects stay as they are), but it writes no log
  entry and no message of its own; it only returns the form with its fields disabled.
  \<open>get\<close>, for the same user, logs the denial as an error and shows the warning.
\<close>

theorem post_denial_is_silent:
  assumes "\<not> permitted env req"
  shows "post env req w =
           (case check_upload_allow env req w of
              Inl e \<Rightarrow> (Inl e, w)
            | Inr (allowed, w1) \<Rightarrow> (Inr (Render_upload (set_disabled True new_form)), w1))
         \<and> projects (snd (post env req w)) = projects w
         \<and> logger (snd (post env req w)) = logger w
         \<and> (upload_allowed env req w \<longrightarrow>
               post env req w = (Inr (Render_upload (set_disabled True new_form)), w)
               \<and> messages (snd (post env req w)) = messages w)
         \<and> ((\<forall>e. check_upload_allow env req w \<noteq> Inl e) \<longrightarrow>
               logger (snd (get env req w)) =
                 logger w @ [(Error, ''User '' @ username (user_of req)
                                       @ '' is not allowed to see upload content'')]
               \<and> last (messages (snd (get env req w))) =
                   (Warning, ''User not allowed to perform this action''))
         \<and> (\<forall>e. check_upload_allow env req w = Inl e \<longrightarrow>
               logger (snd (get env req w)) =
                 logger w @ [(Error, ''Upload view error: '' @ str_exn e @ ''. User: ''
                                       @ username (user_of req))]
               \<and> last (messages (snd (get env req w))) =
                   (Error, ''There was an error while fetching upload content: '' @ str_exn e))"
proof -
  have p: "post env req w =
           (case check_upload_allow env req w of
              Inl e \<Rightarrow> (Inl e, w)
            | Inr (allowed, w1) \<Rightarrow> (Inr (Render_upload (set_disabled True new_form)), w1))"
    using assms by (simp add: post_denied)
  have f: "projects (snd (post env req w)) = projects w" "logger (snd (post env req w)) = logger w"
    using assms by (simp_all add: post_denied_fields)
  have a: "upload_allowed env req w \<longrightarrow>
               post env req w = (Inr (Render_upload (set_disabled True new_form)), w)
               \<and> messages (snd (post env req w)) = messages w"
    by (simp add: p upload_allowed_iff)
  have su: "\<not> is_superuser (user_of req)"
    and gr: "\<not> is_user_in_groups env (user_of req) permitted_groups"
    using assms by (simp_all add: permitted_def)
  have g1: "(\<forall>e. check_upload_allow env req w \<noteq> Inl e) \<longrightarrow>
               logger (snd (get env req w)) =
                 logger w @ [(Error, ''User '' @ username (user_of req)
                                       @ '' is not allowed to see upload content'')]
               \<and> last (messages (snd (get env req w))) =
                   (Warning, ''User not allowed to perform this action'')"
  proof
    assume n: "\<forall>e. check_upload_allow env req w \<noteq> Inl e"
    then obtain allowed w1 where c: "check_upload_allow env req w = Inr (allowed, w1)"
      by (cases "check_upload_allow env req w") auto
    have l: "logger w1 = logger w"
      using c by (rule check_upload_allow_Inr)
    have g: "get_try env req w =
             (Some (UserNotAllowException ''User not allowed to perform this action''),
              if allowed then w1 else w1\<lparr>view_form := set_disabled True (view_form w1)\<rparr>)"
      using su gr by (simp add: get_try_def c Let_def)
    show "logger (snd (get env req w)) =
                 logger w @ [(Error, ''User '' @ username (user_of req)
                                       @ '' is not allowed to see upload content'')]
               \<and> last (messages (snd (get env req w))) =
                   (Warning, ''User not allowed to perform this action'')"
      by (simp add: get_def g Let_def l)
  qed
  have g2: "\<forall>e. check_upload_allow env req w = Inl e \<longrightarrow>
               logger (snd (get env req w)) =
                 logger w @ [(Error, ''Upload view error: '' @ str_exn e @ ''. User: ''
                                       @ username (user_of req))]
               \<and> last (messages (snd (get env req w))) =
                   (Error, ''There was an error while fetching upload content: '' @ str_exn e)"
  proof (intro allI impI)
    fix e assume c: "check_upload_allow env req w = Inl e"
    then obtain m where e: "e = OverflowError m"
      by (auto simp: check_upload_allow_def days_to_next_upload_def days_remaining_def
          timedelta_of_days_def datetime_add_def split: sum.splits if_splits list.splits)
    have g: "get_try env req w = (Some e, w)"
      using su by (simp add: get_try_def c)
    show "logger (snd (get env req w)) =
                 logger w @ [(Error, ''Upload view error: '' @ str_exn e @ ''. User: ''
                                       @ username (user_of req))]
               \<and> last (messages (snd (get env req w))) =
                   (Error, ''There was an error while fetching upload content: '' @ str_exn e)"
      by (simp add: get_def g e Let_def)
  qed
  from p f a g1 g2 show ?thesis by blast
qed

theorem post_denial_is_silent_witness:
  "\<not> permitted example_env outsider_request
   \<and> post example_env outsider_request example_world =
       (Inr (Render_upload (set_disabled True new_form)), example_world)
   \<and> logger (snd (post example_env outsider_request example_world)) = []
   \<and> messages (snd (post example_env outsider_request example_world)) = []
   \<and> logger (snd (get example_env outsider_request example_world)) =
       [(Error, ''User kim is not allowed to see upload content'')]"
proof -
  have n: "\<not> permitted example_env outsider_request"
    by (simp add: permitted_def example_env_def outsider_request_def)
  have a: "upload_allowed example_env outsider_request example_world"
    by (simp add: upload_allowed_def check_upload_allow_def days_to_next_upload_def
        example_world_def order_by_timestamp_desc_def)
  then have c: "check_upload_allow example_env outsider_request example_world
                  = Inr (True, example_world)"
    by (simp add: upload_allowed_iff)
  then have r: "\<forall>e. check_upload_allow example_env outsider_request example_world \<noteq> Inl e"
    by simp
  have e: "logger example_world = []" "messages example_world = []"
    by (simp_all add: example_world_def)
  have u: "username (user_of outsider_request) = ''kim''"
    by (simp add: outsider_request_def)
  from post_denial_is_silent [OF n, of example_world] n a r e u show ?thesis
    by (simp add: c)
qed

end
